theory Spec2Isabelle
  imports Main "HOL-Library.Word"
begin

section \<open>Vendor status codes and library error codes\<close>

text \<open>
  The vendor status codes are the macros of \<^verbatim>\<open>Adafruit_Fingerprint.h\<close>, the external
  driver library the sources include. That header is not part of the repository; the
  values below are the ones it declares. A vendor code is a \<^verbatim>\<open>uint8_t\<close>.
\<close>

type_synonym vendor_code = "8 word"

definition FINGERPRINT_OK :: vendor_code where "FINGERPRINT_OK = 0x00"
definition FINGERPRINT_PACKETRECIEVEERR :: vendor_code where "FINGERPRINT_PACKETRECIEVEERR = 0x01"
definition FINGERPRINT_NOFINGER :: vendor_code where "FINGERPRINT_NOFINGER = 0x02"
definition FINGERPRINT_IMAGEFAIL :: vendor_code where "FINGERPRINT_IMAGEFAIL = 0x03"
definition FINGERPRINT_IMAGEMESS :: vendor_code where "FINGERPRINT_IMAGEMESS = 0x06"
definition FINGERPRINT_FEATUREFAIL :: vendor_code where "FINGERPRINT_FEATUREFAIL = 0x07"
definition FINGERPRINT_ENROLLMISMATCH :: vendor_code where "FINGERPRINT_ENROLLMISMATCH = 0x0A"
definition FINGERPRINT_BADLOCATION :: vendor_code where "FINGERPRINT_BADLOCATION = 0x0B"
definition FINGERPRINT_DBRANGEFAIL :: vendor_code where "FINGERPRINT_DBRANGEFAIL = 0x0C"
definition FINGERPRINT_UPLOADFEATUREFAIL :: vendor_code where "FINGERPRINT_UPLOADFEATUREFAIL = 0x0D"
definition FINGERPRINT_PACKETRESPONSEFAIL :: vendor_code where "FINGERPRINT_PACKETRESPONSEFAIL = 0x0E"
definition FINGERPRINT_UPLOADFAIL :: vendor_code where "FINGERPRINT_UPLOADFAIL = 0x0F"
definition FINGERPRINT_DELETEFAIL :: vendor_code where "FINGERPRINT_DELETEFAIL = 0x10"
definition FINGERPRINT_DBCLEARFAIL :: vendor_code where "FINGERPRINT_DBCLEARFAIL = 0x11"
definition FINGERPRINT_PASSFAIL :: vendor_code where "FINGERPRINT_PASSFAIL = 0x13"
definition FINGERPRINT_INVALIDIMAGE :: vendor_code where "FINGERPRINT_INVALIDIMAGE = 0x15"
definition FINGERPRINT_FLASHERR :: vendor_code where "FINGERPRINT_FLASHERR = 0x18"
definition FINGERPRINT_INVALIDREG :: vendor_code where "FINGERPRINT_INVALIDREG = 0x1A"

text \<open>\<^verbatim>\<open>enum UF_ErrorCode\<close> of \<^verbatim>\<open>UF_Common.h\<close>, with its numeric values.\<close>

datatype UF_ErrorCode =
    UF_OK | UF_ERROR_COMM | UF_ERROR_NO_SENSOR | UF_ERROR_INVALID_ID
  | UF_ERROR_SLOT_FULL | UF_ERROR_TIMEOUT | UF_ERROR_SENSOR_BUSY | UF_ERROR_PACKET
  | UF_ERROR_NOT_ENROLLED | UF_ERROR_NO_FINGER | UF_ERROR_IMAGE_MESS
  | UF_ERROR_FEATURE_FAIL | UF_ERROR_IMAGE_FAIL | UF_ERROR_DUPLICATE_ID
  | UF_ERROR_NOT_SUPPORTED | UF_ERROR_INVALID_PARAM

fun error_value :: "UF_ErrorCode \<Rightarrow> nat" where
  "error_value UF_OK = 0x00"
| "error_value UF_ERROR_COMM = 0x01"
| "error_value UF_ERROR_NO_SENSOR = 0x02"
| "error_value UF_ERROR_INVALID_ID = 0x03"
| "error_value UF_ERROR_SLOT_FULL = 0x04"
| "error_value UF_ERROR_TIMEOUT = 0x05"
| "error_value UF_ERROR_SENSOR_BUSY = 0x06"
| "error_value UF_ERROR_PACKET = 0x07"
| "error_value UF_ERROR_NOT_ENROLLED = 0x08"
| "error_value UF_ERROR_NO_FINGER = 0x09"
| "error_value UF_ERROR_IMAGE_MESS = 0x0A"
| "error_value UF_ERROR_FEATURE_FAIL = 0x0B"
| "error_value UF_ERROR_IMAGE_FAIL = 0x0C"
| "error_value UF_ERROR_DUPLICATE_ID = 0x0D"
| "error_value UF_ERROR_NOT_SUPPORTED = 0x0E"
| "error_value UF_ERROR_INVALID_PARAM = 0x0F"

text \<open>
  \<^verbatim>\<open>UniversalFingerprint::_convertAdafruitError\<close>: a \<^verbatim>\<open>switch\<close> over the vendor
  code, the cases in the order of the source, ending in \<^verbatim>\<open>default: return UF_ERROR_COMM\<close>.
\<close>

definition convertAdafruitError :: "vendor_code \<Rightarrow> UF_ErrorCode" where
  "convertAdafruitError error =
     (if error = FINGERPRINT_OK then UF_OK
      else if error = FINGERPRINT_NOFINGER then UF_ERROR_NO_FINGER
      else if error = FINGERPRINT_IMAGEFAIL then UF_ERROR_IMAGE_FAIL
      else if error = FINGERPRINT_IMAGEMESS then UF_ERROR_IMAGE_MESS
      else if error = FINGERPRINT_PACKETRECIEVEERR then UF_ERROR_COMM
      else if error = FINGERPRINT_FEATUREFAIL then UF_ERROR_FEATURE_FAIL
      else if error = FINGERPRINT_INVALIDIMAGE then UF_ERROR_IMAGE_FAIL
      else if error = FINGERPRINT_ENROLLMISMATCH then UF_ERROR_FEATURE_FAIL
      else if error = FINGERPRINT_BADLOCATION then UF_ERROR_INVALID_ID
      else if error = FINGERPRINT_DBRANGEFAIL then UF_ERROR_INVALID_ID
      else if error = FINGERPRINT_UPLOADFEATUREFAIL then UF_ERROR_FEATURE_FAIL
      else if error = FINGERPRINT_PACKETRESPONSEFAIL then UF_ERROR_COMM
      else if error = FINGERPRINT_UPLOADFAIL then UF_ERROR_COMM
      else if error = FINGERPRINT_DELETEFAIL then UF_ERROR_COMM
      else if error = FINGERPRINT_DBCLEARFAIL then UF_ERROR_COMM
      else if error = FINGERPRINT_PASSFAIL then UF_ERROR_COMM
      else if error = FINGERPRINT_INVALIDREG then UF_ERROR_INVALID_PARAM
      else if error = FINGERPRINT_FLASHERR then UF_ERROR_COMM
      else UF_ERROR_COMM)"

text \<open>The codes that have a \<^verbatim>\<open>case\<close> label in the switch: the known mapping table.\<close>

definition known_vendor_codes :: "vendor_code list" where
  "known_vendor_codes =
     [FINGERPRINT_OK, FINGERPRINT_NOFINGER, FINGERPRINT_IMAGEFAIL, FINGERPRINT_IMAGEMESS,
      FINGERPRINT_PACKETRECIEVEERR, FINGERPRINT_FEATUREFAIL, FINGERPRINT_INVALIDIMAGE,
      FINGERPRINT_ENROLLMISMATCH, FINGERPRINT_BADLOCATION, FINGERPRINT_DBRANGEFAIL,
      FINGERPRINT_UPLOADFEATUREFAIL, FINGERPRINT_PACKETRESPONSEFAIL, FINGERPRINT_UPLOADFAIL,
      FINGERPRINT_DELETEFAIL, FINGERPRINT_DBCLEARFAIL, FINGERPRINT_PASSFAIL,
      FINGERPRINT_INVALIDREG, FINGERPRINT_FLASHERR]"

text \<open>
  \<^verbatim>\<open>UniversalFingerprint::errorToString\<close>, on the numeric value of the code: the
  \<^verbatim>\<open>default\<close> branch, for a value that is no enumerator, gives the only "unknown"
  the library has.
\<close>

definition errorToString :: "nat \<Rightarrow> string" where
  "errorToString error =
     (if error = error_value UF_OK then ''Success''
      else if error = error_value UF_ERROR_COMM then ''Communication error''
      else if error = error_value UF_ERROR_NO_SENSOR then ''No sensor found''
      else if error = error_value UF_ERROR_INVALID_ID then ''Invalid template ID''
      else if error = error_value UF_ERROR_SLOT_FULL then ''No empty slots available''
      else if error = error_value UF_ERROR_TIMEOUT then ''Operation timeout''
      else if error = error_value UF_ERROR_SENSOR_BUSY then ''Sensor is busy''
      else if error = error_value UF_ERROR_PACKET then ''Invalid packet''
      else if error = error_value UF_ERROR_NOT_ENROLLED then ''Finger not enrolled''
      else if error = error_value UF_ERROR_NO_FINGER then ''No finger detected''
      else if error = error_value UF_ERROR_IMAGE_MESS then ''Image too messy''
      else if error = error_value UF_ERROR_FEATURE_FAIL then ''Feature extraction failed''
      else if error = error_value UF_ERROR_IMAGE_FAIL then ''Image capture failed''
      else if error = error_value UF_ERROR_DUPLICATE_ID then ''Slot already occupied''
      else if error = error_value UF_ERROR_NOT_SUPPORTED then ''Feature not supported''
      else if error = error_value UF_ERROR_INVALID_PARAM then ''Invalid parameter''
      else ''Unknown error'')"


section \<open>Sensor catalog\<close>

text \<open>\<^verbatim>\<open>enum UF_SensorType\<close> and \<^verbatim>\<open>struct UF_SensorInfo\<close> of \<^verbatim>\<open>UF_Common.h\<close>.\<close>

datatype UF_SensorType =
    UF_SENSOR_AS608 | UF_SENSOR_R307 | UF_SENSOR_GT511C3
  | UF_SENSOR_ZFM60 | UF_SENSOR_ZFM20 | UF_SENSOR_AUTO

record UF_SensorInfo =
  si_type :: UF_SensorType
  modelName :: string
  vendor :: string
  si_capacity :: "16 word"
  packetSize :: "16 word"
  defaultBaud :: "32 word"
  address :: "8 word"
  hasLED :: bool
  hasTouchSensor :: bool

text \<open>The table \<^verbatim>\<open>SENSOR_DB\<close> of \<^verbatim>\<open>UniversalFingerprint.cpp\<close>, in the order of the source.\<close>

definition SENSOR_DB :: "UF_SensorInfo list" where
  "SENSOR_DB =
     [\<lparr>si_type = UF_SENSOR_AS608, modelName = ''AS608'', vendor = ''Adafruit'',
       si_capacity = 162, packetSize = 128, defaultBaud = 57600, address = 1,
       hasLED = True, hasTouchSensor = True\<rparr>,
      \<lparr>si_type = UF_SENSOR_R307, modelName = ''R307'', vendor = ''ZHONGSEN'',
       si_capacity = 1000, packetSize = 256, defaultBaud = 57600, address = 1,
       hasLED = True, hasTouchSensor = True\<rparr>,
      \<lparr>si_type = UF_SENSOR_GT511C3, modelName = ''GT-511C3'', vendor = ''Grow'',
       si_capacity = 200, packetSize = 512, defaultBaud = 9600, address = 1,
       hasLED = False, hasTouchSensor = False\<rparr>,
      \<lparr>si_type = UF_SENSOR_ZFM60, modelName = ''ZFM-60'', vendor = ''ZHONGSEN'',
       si_capacity = 300, packetSize = 128, defaultBaud = 57600, address = 1,
       hasLED = True, hasTouchSensor = True\<rparr>,
      \<lparr>si_type = UF_SENSOR_ZFM20, modelName = ''ZFM-20'', vendor = ''ZHONGSEN'',
       si_capacity = 256, packetSize = 128, defaultBaud = 57600, address = 1,
       hasLED = False, hasTouchSensor = True\<rparr>,
      \<lparr>si_type = UF_SENSOR_AUTO, modelName = ''AUTO'', vendor = ''Unknown'',
       si_capacity = 0, packetSize = 0, defaultBaud = 0, address = 0,
       hasLED = False, hasTouchSensor = False\<rparr>]"

text \<open>
  The loop \<^verbatim>\<open>for (info : SENSOR_DB) if (info.type == t) { _capacity = info.capacity; break; }\<close>
  that the constructors and \<^verbatim>\<open>begin\<close> share: the capacity of the first entry of type
  \<open>t\<close>, the old capacity when there is none.
\<close>

definition lookup_capacity :: "UF_SensorType \<Rightarrow> 16 word \<Rightarrow> 16 word" where
  "lookup_capacity t old =
     (case find (\<lambda>info. si_type info = t) SENSOR_DB of
        Some info \<Rightarrow> si_capacity info
      | None \<Rightarrow> old)"

section \<open>The device behind the driver\<close>

text \<open>
  The calls the sources make on the \<^verbatim>\<open>Adafruit_Fingerprint\<close> object. The module is a
  black box: its answer to a command may depend on every command it has received
  before, so a device is a function of the history of commands and the command.
  The history is kept with the driver handle; an operation that leaves it unchanged has
  issued no device command.
\<close>

datatype cmd =
    Begin "32 word"
  | VerifyPassword
  | GetParameters
  | GetTemplateCount "16 word"
  | GetImage
  | Image2Tz "8 word"
  | CreateModel
  | StoreModel "16 word"
  | DeleteModel "16 word"

record device =
  dev_begin :: "cmd list \<Rightarrow> 32 word \<Rightarrow> bool"
  dev_status :: "cmd list \<Rightarrow> cmd \<Rightarrow> vendor_code"
  dev_parameters :: "cmd list \<Rightarrow> 32 word"

section \<open>Capability detector\<close>

text \<open>\<^verbatim>\<open>class UF_SensorDetector\<close>: its two data members besides the driver handle.\<close>

record UF_SensorDetector =
  detectedType :: UF_SensorType
  detectedCapacity :: "16 word"

definition new_UF_SensorDetector :: UF_SensorDetector where
  "new_UF_SensorDetector = \<lparr>detectedType = UF_SENSOR_AUTO, detectedCapacity = 0\<rparr>"

text \<open>\<^verbatim>\<open>_testSlot\<close>: one \<^verbatim>\<open>getTemplateCount(id)\<close>, addressable when the answer is OK.\<close>

definition testSlot :: "device \<Rightarrow> cmd list \<Rightarrow> 16 word \<Rightarrow> bool \<times> cmd list" where
  "testSlot dev log tid =
     (dev_status dev log (GetTemplateCount tid) = FINGERPRINT_OK,
      log @ [GetTemplateCount tid])"

text \<open>\<^verbatim>\<open>detectByCapacity\<close>: the chain of \<^verbatim>\<open>if / else if\<close> of the source.\<close>

definition detectByCapacity :: "device \<Rightarrow> cmd list \<Rightarrow> UF_SensorType \<times> cmd list" where
  "detectByCapacity dev log =
     (let (ok1, log1) = testSlot dev log 1000 in
      if ok1 then (UF_SENSOR_R307, log1) else
      let (ok2, log2) = testSlot dev log1 300 in
      if ok2 then (UF_SENSOR_ZFM60, log2) else
      let (ok3, log3) = testSlot dev log2 256 in
      if ok3 then (UF_SENSOR_ZFM20, log3) else
      let (ok4, log4) = testSlot dev log3 200 in
      if ok4 then (UF_SENSOR_GT511C3, log4) else
      let (ok5, log5) = testSlot dev log4 162 in
      if ok5 then (UF_SENSOR_AS608, log5) else
      (UF_SENSOR_AUTO, log5))"

text \<open>
  \<^verbatim>\<open>detectByParameters\<close> reads the parameter register and returns
  \<^verbatim>\<open>UF_SENSOR_AUTO\<close> on both paths.
\<close>

definition detectByParameters :: "device \<Rightarrow> cmd list \<Rightarrow> UF_SensorType \<times> cmd list" where
  "detectByParameters dev log =
     (let param = dev_parameters dev log; log' = log @ [GetParameters] in
      if param = 0 then (UF_SENSOR_AUTO, log') else (UF_SENSOR_AUTO, log'))"

text \<open>\<^verbatim>\<open>detect\<close>: the detected type, the detector object it leaves, the history.\<close>

definition detect ::
    "device \<Rightarrow> cmd list \<Rightarrow> UF_SensorDetector \<Rightarrow> UF_SensorType \<times> UF_SensorDetector \<times> cmd list" where
  "detect dev log d =
     (let (t0, log0) = detectByParameters dev log;
          (t, log') = (if t0 = UF_SENSOR_AUTO then detectByCapacity dev log0 else (t0, log0));
          cap = (case t of
                   UF_SENSOR_AS608 \<Rightarrow> 162
                 | UF_SENSOR_R307 \<Rightarrow> 1000
                 | UF_SENSOR_GT511C3 \<Rightarrow> 200
                 | UF_SENSOR_ZFM60 \<Rightarrow> 300
                 | UF_SENSOR_ZFM20 \<Rightarrow> 256
                 | UF_SENSOR_AUTO \<Rightarrow> 162)
      in (t, d\<lparr>detectedType := t, detectedCapacity := cap\<rparr>, log'))"

text \<open>
  The detection algorithm in the words of the design: walk a list of profiles, probe
  each profile's capacity, take the first that is addressable.
\<close>

fun first_addressable ::
    "device \<Rightarrow> cmd list \<Rightarrow> (16 word \<times> UF_SensorType) list \<Rightarrow> UF_SensorType \<times> cmd list" where
  "first_addressable dev log [] = (UF_SENSOR_AUTO, log)"
| "first_addressable dev log ((c, t) # ps) =
     (if dev_status dev log (GetTemplateCount c) = FINGERPRINT_OK
      then (t, log @ [GetTemplateCount c])
      else first_addressable dev (log @ [GetTemplateCount c]) ps)"

definition profiles_descending :: "(16 word \<times> UF_SensorType) list" where
  "profiles_descending =
     [(1000, UF_SENSOR_R307), (300, UF_SENSOR_ZFM60), (256, UF_SENSOR_ZFM20),
      (200, UF_SENSOR_GT511C3), (162, UF_SENSOR_AS608)]"

text \<open>A stateless probe that accepts exactly the slot indices up to \<open>n\<close>.\<close>

definition accepts_up_to :: "16 word \<Rightarrow> device" where
  "accepts_up_to n =
     \<lparr>dev_begin = (\<lambda>log baud. True),
      dev_status = (\<lambda>log c. case c of
                      GetTemplateCount i \<Rightarrow>
                        if i \<le> n then FINGERPRINT_OK else FINGERPRINT_BADLOCATION
                    | _ \<Rightarrow> FINGERPRINT_OK),
      dev_parameters = (\<lambda>log. 0)\<rparr>"


section \<open>The facade and its slot occupancy cache\<close>

text \<open>
  The data members of \<^verbatim>\<open>class UniversalFingerprint\<close> that the operations below read or
  write. \<open>slotOccupancy\<close> is the array \<^verbatim>\<open>bool* _slotOccupancy\<close>, \<open>None\<close> for
  \<^verbatim>\<open>nullptr\<close>; cell \<open>i\<close> stands for slot \<open>i + 1\<close>. \<open>calls\<close> is the history of
  the commands sent through \<^verbatim>\<open>_finger\<close>.
\<close>

record UniversalFingerprint =
  sensorType :: UF_SensorType
  capacity :: "16 word"
  enrolledCount :: "16 word"
  initialized :: bool
  databaseScanned :: bool
  slotOccupancy :: "bool list option"
  calls :: "cmd list"

text \<open>The constructors: the capacity of an explicitly chosen sensor type is looked up.\<close>

definition new_UniversalFingerprint :: "UF_SensorType \<Rightarrow> UniversalFingerprint" where
  "new_UniversalFingerprint t =
     \<lparr>sensorType = t,
      capacity = (if t \<noteq> UF_SENSOR_AUTO then lookup_capacity t 0 else 0),
      enrolledCount = 0, initialized = False, databaseScanned = False,
      slotOccupancy = None, calls = []\<rparr>"

text \<open>
  Reading and writing a cell of the array. In C++ an access through \<^verbatim>\<open>nullptr\<close> or
  past the end of the array is undefined. The model gives such a read the value
  \<open>False\<close> and makes such a write a no-op, and no theorem below rests on either:
  \<open>well_formed\<close> says that the array of an initialized facade is allocated with exactly
  \<open>capacity\<close> cells, it holds of a new facade, every operation preserves it, and
  the theorems about a read or a write are stated on well-formed facades.
\<close>

definition slot_read :: "UniversalFingerprint \<Rightarrow> nat \<Rightarrow> bool" where
  "slot_read st i =
     (case slotOccupancy st of Some xs \<Rightarrow> i < length xs \<and> xs ! i | None \<Rightarrow> False)"

definition slot_write :: "UniversalFingerprint \<Rightarrow> nat \<Rightarrow> bool \<Rightarrow> UniversalFingerprint" where
  "slot_write st i v = st\<lparr>slotOccupancy := map_option (\<lambda>xs. xs[i := v]) (slotOccupancy st)\<rparr>"

definition well_formed :: "UniversalFingerprint \<Rightarrow> bool" where
  "well_formed st =
     ((databaseScanned st \<longrightarrow> initialized st) \<and>
      (case slotOccupancy st of
         None \<Rightarrow> \<not> initialized st
       | Some xs \<Rightarrow> length xs = unat (capacity st)))"

text \<open>One call on the driver: the device's answer, and the history extended.\<close>

definition call :: "device \<Rightarrow> UniversalFingerprint \<Rightarrow> cmd \<Rightarrow> vendor_code \<times> UniversalFingerprint" where
  "call dev st c = (dev_status dev (calls st) c, st\<lparr>calls := calls st @ [c]\<rparr>)"

subsection \<open>Scanning and queries\<close>

text \<open>
  The loop of \<^verbatim>\<open>scanDatabase\<close>, \<^verbatim>\<open>for (uint16_t i = 0; i < _capacity; i++)\<close>, from
  index \<open>i\<close> with \<open>count\<close> templates found so far.
\<close>

function scan_loop ::
    "device \<Rightarrow> 16 word \<Rightarrow> 16 word \<Rightarrow> UniversalFingerprint \<Rightarrow> UniversalFingerprint \<times> 16 word" where
  "scan_loop dev i count st =
     (if i < capacity st then
        (let tid = i + 1;
             (result, st1) = call dev st (GetTemplateCount tid)
         in if result = FINGERPRINT_OK
            then scan_loop dev (i + 1) (count + 1) (slot_write st1 (unat i) True)
            else scan_loop dev (i + 1) count (slot_write st1 (unat i) False))
      else (st, count))"
  by pat_completeness auto
termination
proof (relation "measure (\<lambda>(dev, i, count, st). unat (capacity st) - unat i)", goal_cases)
  case 1
  show ?case by simp
next
  case (2 dev i count st tid x2 result st1)
  have "unat (capacity st) < 2 ^ 16" using unsigned_less [of "capacity st"] by simp
  with 2 show ?case
    by (auto simp: call_def slot_write_def word_less_nat_alt unat_word_ariths)
next
  case (3 dev i count st tid x2 result st1)
  have "unat (capacity st) < 2 ^ 16" using unsigned_less [of "capacity st"] by simp
  with 3 show ?case
    by (auto simp: call_def slot_write_def word_less_nat_alt unat_word_ariths)
qed

declare scan_loop.simps [simp del]

text \<open>
  \<^verbatim>\<open>scanDatabase\<close> returns an \<^verbatim>\<open>int16_t\<close>: the count, or \<open>-1\<close> when the facade is
  not initialized or has no array.
\<close>

definition scanDatabase :: "device \<Rightarrow> UniversalFingerprint \<Rightarrow> 16 word \<times> UniversalFingerprint" where
  "scanDatabase dev st =
     (if \<not> initialized st \<or> slotOccupancy st = None then (- 1, st)
      else (let (st1, count) = scan_loop dev 0 0 st
            in (count, st1\<lparr>enrolledCount := count, databaseScanned := True\<rparr>)))"

definition isSlotOccupied :: "UniversalFingerprint \<Rightarrow> 16 word \<Rightarrow> bool" where
  "isSlotOccupied st tid =
     (if \<not> databaseScanned st \<or> tid < 1 \<or> tid > capacity st then False
      else slot_read st (unat (tid - 1)))"

text \<open>The loop of \<^verbatim>\<open>findEmptySlot\<close>, \<^verbatim>\<open>for (uint16_t i = start - 1; i < _capacity; i++)\<close>.\<close>

function findEmptySlot_loop :: "UniversalFingerprint \<Rightarrow> 16 word \<Rightarrow> 16 word" where
  "findEmptySlot_loop st i =
     (if i < capacity st then
        (if \<not> slot_read st (unat i) then i + 1 else findEmptySlot_loop st (i + 1))
      else 0)"
  by pat_completeness auto
termination
proof (relation "measure (\<lambda>(st, i). unat (capacity st) - unat i)", goal_cases)
  case 1
  show ?case by simp
next
  case (2 st i)
  have "unat (capacity st) < 2 ^ 16" using unsigned_less [of "capacity st"] by simp
  with 2 show ?case by (auto simp: word_less_nat_alt unat_word_ariths)
qed

declare findEmptySlot_loop.simps [simp del]

definition findEmptySlot :: "UniversalFingerprint \<Rightarrow> 16 word \<Rightarrow> 16 word" where
  "findEmptySlot st start =
     (if \<not> databaseScanned st \<or> start < 1 \<or> start > capacity st then 0
      else findEmptySlot_loop st (start - 1))"

text \<open>The loop of \<^verbatim>\<open>findLastEmptySlot\<close>, \<^verbatim>\<open>for (uint16_t i = _capacity; i > 0; i--)\<close>.\<close>

function findLastEmptySlot_loop :: "UniversalFingerprint \<Rightarrow> 16 word \<Rightarrow> 16 word" where
  "findLastEmptySlot_loop st i =
     (if i > 0 then
        (if \<not> slot_read st (unat (i - 1)) then i else findLastEmptySlot_loop st (i - 1))
      else 0)"
  by pat_completeness auto
termination
  by (relation "measure (\<lambda>(st, i). unat i)")
     (auto simp: word_greater_zero_iff measure_unat)

declare findLastEmptySlot_loop.simps [simp del]

definition findLastEmptySlot :: "UniversalFingerprint \<Rightarrow> 16 word" where
  "findLastEmptySlot st =
     (if \<not> databaseScanned st then 0 else findLastEmptySlot_loop st (capacity st))"

text \<open>
  \<^verbatim>\<open>struct UF_DatabaseStats\<close> without its \<^verbatim>\<open>float usagePercentage\<close>, which no
  statement below is about.
\<close>

record UF_DatabaseStats =
  totalSlots :: "16 word"
  occupiedSlots :: "16 word"
  freeSlots :: "16 word"
  firstFreeSlot :: "16 word"
  lastFreeSlot :: "16 word"

definition getDatabaseStats ::
    "device \<Rightarrow> UniversalFingerprint \<Rightarrow> bool \<times> UF_DatabaseStats \<times> UniversalFingerprint" where
  "getDatabaseStats dev st =
     (let st1 = (if \<not> databaseScanned st then snd (scanDatabase dev st) else st)
      in (True,
          \<lparr>totalSlots = capacity st1,
           occupiedSlots = enrolledCount st1,
           freeSlots = capacity st1 - enrolledCount st1,
           firstFreeSlot = findEmptySlot st1 1,
           lastFreeSlot = findLastEmptySlot st1\<rparr>,
          st1))"

subsection \<open>Mutating operations\<close>

definition validateID :: "UniversalFingerprint \<Rightarrow> 16 word \<Rightarrow> bool" where
  "validateID st tid = (tid \<ge> 1 \<and> tid \<le> capacity st)"

definition updateSlotOccupancy :: "UniversalFingerprint \<Rightarrow> 16 word \<Rightarrow> bool \<Rightarrow> UniversalFingerprint" where
  "updateSlotOccupancy st tid occupied =
     (if slotOccupancy st \<noteq> None \<and> tid \<ge> 1 \<and> tid \<le> capacity st
      then (slot_write st (unat (tid - 1)) occupied)\<lparr>databaseScanned := True\<rparr>
      else st)"

text \<open>
  The second capture of \<^verbatim>\<open>_enrollInternal\<close> polls \<^verbatim>\<open>getImage\<close> while
  \<^verbatim>\<open>millis() - startTime < 10000\<close>. The clock is outside the model: \<open>budget\<close> is the
  number of times the loop condition holds before the ten seconds are over. The loop
  gives \<open>Some e\<close> when it returns \<open>e\<close> from the function, \<open>None\<close> when it is left by
  \<^verbatim>\<open>break\<close> or by the clock.
\<close>

fun wait_second_image ::
    "device \<Rightarrow> nat \<Rightarrow> UniversalFingerprint \<Rightarrow> UF_ErrorCode option \<times> UniversalFingerprint" where
  "wait_second_image dev 0 st = (None, st)"
| "wait_second_image dev (Suc budget) st =
     (let (result, st1) = call dev st GetImage
      in if result = FINGERPRINT_NOFINGER then wait_second_image dev budget st1
         else if result \<noteq> FINGERPRINT_OK then (Some (convertAdafruitError result), st1)
         else (None, st1))"

definition enrollInternal ::
    "device \<Rightarrow> nat \<Rightarrow> UniversalFingerprint \<Rightarrow> 16 word \<Rightarrow> UF_ErrorCode \<times> UniversalFingerprint" where
  "enrollInternal dev budget st tid =
     (let (r1, st1) = call dev st GetImage in
      if r1 \<noteq> FINGERPRINT_OK then (convertAdafruitError r1, st1) else
      let (r2, st2) = call dev st1 (Image2Tz 1) in
      if r2 \<noteq> FINGERPRINT_OK then (convertAdafruitError r2, st2) else
      case wait_second_image dev budget st2 of
        (Some e, st3) \<Rightarrow> (e, st3)
      | (None, st3) \<Rightarrow>
          let (r4, st4) = call dev st3 (Image2Tz 2) in
          if r4 \<noteq> FINGERPRINT_OK then (convertAdafruitError r4, st4) else
          let (r5, st5) = call dev st4 CreateModel in
          if r5 \<noteq> FINGERPRINT_OK then (convertAdafruitError r5, st5) else
          let (r6, st6) = call dev st5 (StoreModel tid) in
          (convertAdafruitError r6, st6))"

text \<open>
  \<^verbatim>\<open>enroll(id, numScans)\<close>. An out-of-bounds \<open>numScans\<close> is replaced by 2; the value
  is not used after that.
\<close>

definition enroll ::
    "device \<Rightarrow> nat \<Rightarrow> UniversalFingerprint \<Rightarrow> 16 word \<Rightarrow> 8 word \<Rightarrow> UF_ErrorCode \<times> UniversalFingerprint" where
  "enroll dev budget st tid numScans =
     (if \<not> initialized st then (UF_ERROR_NO_SENSOR, st) else
      let numScans' = (if numScans < 1 \<or> numScans > 4 then 2 else numScans);
          tid' = (if tid = 0 then findEmptySlot st 1 else tid) in
      if tid = 0 \<and> tid' = 0 then (UF_ERROR_SLOT_FULL, st) else
      if \<not> validateID st tid' then (UF_ERROR_INVALID_ID, st) else
      if databaseScanned st \<and> slot_read st (unat (tid' - 1)) then (UF_ERROR_DUPLICATE_ID, st) else
      let (result, st1) = enrollInternal dev budget st tid' in
      if result = UF_OK
      then (result, (updateSlotOccupancy st1 tid' True)\<lparr>enrolledCount := enrolledCount st1 + 1\<rparr>)
      else (result, st1))"

definition deleteTemplate ::
    "device \<Rightarrow> UniversalFingerprint \<Rightarrow> 16 word \<Rightarrow> UF_ErrorCode \<times> UniversalFingerprint" where
  "deleteTemplate dev st tid =
     (if \<not> initialized st then (UF_ERROR_NO_SENSOR, st) else
      if \<not> validateID st tid then (UF_ERROR_INVALID_ID, st) else
      let (result, st1) = call dev st (DeleteModel tid) in
      if result = FINGERPRINT_OK
      then (let st2 = updateSlotOccupancy st1 tid False
            in (UF_OK, if enrolledCount st2 > 0
                       then st2\<lparr>enrolledCount := enrolledCount st2 - 1\<rparr> else st2))
      else (convertAdafruitError result, st1))"

text \<open>
  The loop of \<^verbatim>\<open>clearDatabase\<close>, \<^verbatim>\<open>for (uint16_t i = 1; i <= _capacity; i++)\<close>. With a
  capacity of 65535 the condition never fails and the loop does not end: the loop is a
  partial function, \<open>None\<close> when it does not return.
\<close>

partial_function (option) clear_loop ::
    "device \<Rightarrow> 16 word \<Rightarrow> bool \<Rightarrow> UniversalFingerprint \<Rightarrow> (bool \<times> UniversalFingerprint) option" where
  "clear_loop dev i success st =
     (if i \<le> capacity st then
        (let (result, st1) = call dev st (DeleteModel i)
         in if result \<noteq> FINGERPRINT_OK \<and> result \<noteq> FINGERPRINT_BADLOCATION
            then clear_loop dev (i + 1) False st1
            else clear_loop dev (i + 1) success st1)
      else Some (success, st))"

definition clearDatabase ::
    "device \<Rightarrow> UniversalFingerprint \<Rightarrow> (UF_ErrorCode \<times> UniversalFingerprint) option" where
  "clearDatabase dev st =
     (if \<not> initialized st then Some (UF_ERROR_NO_SENSOR, st) else
      case clear_loop dev 1 True st of
        None \<Rightarrow> None
      | Some (success, st1) \<Rightarrow>
          (let st2 = st1\<lparr>slotOccupancy :=
                          map_option (\<lambda>xs. replicate (unat (capacity st1)) False) (slotOccupancy st1)\<rparr>;
               st3 = st2\<lparr>enrolledCount := 0, databaseScanned := False\<rparr>
           in Some (if success then UF_OK else UF_ERROR_COMM, st3)))"

subsection \<open>Finger detection and initialization\<close>

definition isFingerPresent :: "device \<Rightarrow> UniversalFingerprint \<Rightarrow> bool \<times> UniversalFingerprint" where
  "isFingerPresent dev st =
     (if \<not> initialized st then (False, st) else
      let (result, st1) = call dev st GetImage
      in (result = FINGERPRINT_OK \<or> result = FINGERPRINT_NOFINGER, st1))"

text \<open>
  \<^verbatim>\<open>begin(password, baudRate)\<close>, named \<open>begin_uf\<close> here. Opening the serial port and the delay have no effect
  on the members modelled; \<open>password\<close> is not used by the source. The detector object
  is kept in \<^verbatim>\<open>_sensorDetector\<close> and never read again. \<^verbatim>\<open>scanDatabase()\<close> is called
  before \<^verbatim>\<open>_initialized = true\<close>, as in the source.
\<close>

definition begin_uf ::
    "device \<Rightarrow> UniversalFingerprint \<Rightarrow> 32 word \<Rightarrow> 32 word \<Rightarrow> bool \<times> UniversalFingerprint" where
  "begin_uf dev st password baudRate =
     (let ok = dev_begin dev (calls st) baudRate;
          st1 = st\<lparr>calls := calls st @ [Begin baudRate]\<rparr> in
      if \<not> ok then (False, st1) else
      let (r, st2) = call dev st1 VerifyPassword in
      if r \<noteq> FINGERPRINT_OK then (False, st2) else
      let st3 = (if sensorType st2 = UF_SENSOR_AUTO
                 then (let (t, d, log) = detect dev (calls st2) new_UF_SensorDetector
                       in st2\<lparr>sensorType := (if t = UF_SENSOR_AUTO then UF_SENSOR_AS608 else t),
                              calls := log\<rparr>)
                 else st2);
          st4 = st3\<lparr>capacity := lookup_capacity (sensorType st3) (capacity st3)\<rparr>;
          st5 = (if capacity st4 = 0
                 then st4\<lparr>sensorType := UF_SENSOR_AS608, capacity := 162\<rparr> else st4);
          st6 = st5\<lparr>slotOccupancy := Some (replicate (unat (capacity st5)) False)\<rparr>;
          (count, st7) = scanDatabase dev st6
      in (True, st7\<lparr>initialized := True\<rparr>))"

section \<open>The memory manager\<close>

text \<open>
  \<^verbatim>\<open>class UF_MemoryManager\<close> keeps a second map of its own; its \<^verbatim>\<open>updateSlot\<close>
  adjusts the count by the change of the cell.
\<close>

record UF_MemoryManager =
  mm_capacity :: "16 word"
  mm_enrolledCount :: "16 word"
  slotMap :: "bool list option"

definition mm_validateID :: "UF_MemoryManager \<Rightarrow> 16 word \<Rightarrow> bool" where
  "mm_validateID m tid = (tid \<ge> 1 \<and> tid \<le> mm_capacity m)"

definition updateSlot :: "UF_MemoryManager \<Rightarrow> 16 word \<Rightarrow> bool \<Rightarrow> bool \<times> UF_MemoryManager" where
  "updateSlot m tid occupied =
     (if \<not> mm_validateID m tid \<or> slotMap m = None then (False, m) else
      let current = (case slotMap m of Some xs \<Rightarrow> unat (tid - 1) < length xs \<and> xs ! unat (tid - 1)
                                     | None \<Rightarrow> False);
          m1 = m\<lparr>slotMap := map_option (\<lambda>xs. xs[unat (tid - 1) := occupied]) (slotMap m)\<rparr>
      in if current \<and> \<not> occupied
         then (True, if mm_enrolledCount m1 > 0
                     then m1\<lparr>mm_enrolledCount := mm_enrolledCount m1 - 1\<rparr> else m1)
         else if \<not> current \<and> occupied
         then (True, m1\<lparr>mm_enrolledCount := mm_enrolledCount m1 + 1\<rparr>)
         else (True, m1))"

text \<open>The slot \<^verbatim>\<open>enroll\<close> works on: the first empty slot when the caller passes 0.\<close>

definition enroll_slot :: "UniversalFingerprint \<Rightarrow> 16 word \<Rightarrow> 16 word" where
  "enroll_slot st tid = (if tid = 0 then findEmptySlot st 1 else tid)"

text \<open>The cache: the occupancy entries, the occupied count and the scanned flag.\<close>

definition cache :: "UniversalFingerprint \<Rightarrow> bool list option \<times> 16 word \<times> bool" where
  "cache st = (slotOccupancy st, enrolledCount st, databaseScanned st)"

text \<open>The data members of the facade other than the command history.\<close>

definition members :: "UniversalFingerprint \<Rightarrow>
    UF_SensorType \<times> 16 word \<times> 16 word \<times> bool \<times> bool \<times> bool list option" where
  "members st = (sensorType st, capacity st, enrolledCount st, initialized st,
                 databaseScanned st, slotOccupancy st)"

section \<open>Devices and states used as concrete inputs\<close>

text \<open>A device that answers OK to every command.\<close>

definition ok_device :: device where
  "ok_device =
     \<lparr>dev_begin = (\<lambda>log baud. True),
      dev_status = (\<lambda>log c. FINGERPRINT_OK),
      dev_parameters = (\<lambda>log. 0)\<rparr>"

text \<open>A device with no finger on it: every image capture answers "no finger".\<close>

definition nofinger_device :: device where
  "nofinger_device =
     \<lparr>dev_begin = (\<lambda>log baud. True),
      dev_status = (\<lambda>log c. case c of GetImage \<Rightarrow> FINGERPRINT_NOFINGER | _ \<Rightarrow> FINGERPRINT_OK),
      dev_parameters = (\<lambda>log. 0)\<rparr>"

text \<open>A device on a bad line: every delete answers with a packet receive error.\<close>

definition badline_device :: device where
  "badline_device =
     \<lparr>dev_begin = (\<lambda>log baud. True),
      dev_status = (\<lambda>log c. case c of DeleteModel i \<Rightarrow> FINGERPRINT_PACKETRECIEVEERR
                                   | _ \<Rightarrow> FINGERPRINT_OK),
      dev_parameters = (\<lambda>log. 0)\<rparr>"

text \<open>
  The facade of an AS608 after its first \<^verbatim>\<open>begin()\<close> (lemma \<open>begin_AS608\<close> below),
  and after a following successful \<^verbatim>\<open>enroll(1)\<close> (lemma \<open>enroll_slot1\<close>).
\<close>

definition st_begun :: UniversalFingerprint where
  "st_begun =
     \<lparr>sensorType = UF_SENSOR_AS608, capacity = 162, enrolledCount = 0,
      initialized = True, databaseScanned = False,
      slotOccupancy = Some (replicate 162 False),
      calls = [Begin 57600, VerifyPassword]\<rparr>"

definition st_enrolled1 :: UniversalFingerprint where
  "st_enrolled1 =
     \<lparr>sensorType = UF_SENSOR_AS608, capacity = 162, enrolledCount = 1,
      initialized = True, databaseScanned = True,
      slotOccupancy = Some ((replicate 162 False)[0 := True]),
      calls = [Begin 57600, VerifyPassword, GetImage, Image2Tz 1, GetImage, Image2Tz 2,
               CreateModel, StoreModel 1]\<rparr>"

text \<open>The facade after a further successful \<^verbatim>\<open>deleteTemplate(2)\<close> (lemma \<open>delete_slot2\<close>).\<close>

definition st_deleted2 :: UniversalFingerprint where
  "st_deleted2 =
     \<lparr>sensorType = UF_SENSOR_AS608, capacity = 162, enrolledCount = 0,
      initialized = True, databaseScanned = True,
      slotOccupancy = Some ((replicate 162 False)[0 := True, 1 := False]),
      calls = [Begin 57600, VerifyPassword, GetImage, Image2Tz 1, GetImage, Image2Tz 2,
               CreateModel, StoreModel 1, DeleteModel 2]\<rparr>"

text \<open>The slot ids in \<open>[1, capacity]\<close> for which \<^verbatim>\<open>isSlotOccupied\<close> returns true.\<close>

definition occupied_ids :: "UniversalFingerprint \<Rightarrow> 16 word list" where
  "occupied_ids st = filter (isSlotOccupied st) (map of_nat [1..<Suc (unat (capacity st))])"

section \<open>Basic facts\<close>

lemmas vendor_defs =
  FINGERPRINT_OK_def FINGERPRINT_PACKETRECIEVEERR_def FINGERPRINT_NOFINGER_def
  FINGERPRINT_IMAGEFAIL_def FINGERPRINT_IMAGEMESS_def FINGERPRINT_FEATUREFAIL_def
  FINGERPRINT_ENROLLMISMATCH_def FINGERPRINT_BADLOCATION_def FINGERPRINT_DBRANGEFAIL_def
  FINGERPRINT_UPLOADFEATUREFAIL_def FINGERPRINT_PACKETRESPONSEFAIL_def
  FINGERPRINT_UPLOADFAIL_def FINGERPRINT_DELETEFAIL_def FINGERPRINT_DBCLEARFAIL_def
  FINGERPRINT_PASSFAIL_def FINGERPRINT_INVALIDIMAGE_def FINGERPRINT_FLASHERR_def
  FINGERPRINT_INVALIDREG_def

lemma begin_AS608:
  "begin_uf ok_device (new_UniversalFingerprint UF_SENSOR_AS608) 0 57600 = (True, st_begun)"
  by (simp add: begin_uf_def new_UniversalFingerprint_def ok_device_def call_def
      lookup_capacity_def SENSOR_DB_def scanDatabase_def st_begun_def Let_def)

lemma enroll_slot1: "enroll ok_device 1 st_begun 1 2 = (UF_OK, st_enrolled1)"
  by (simp add: enroll_def validateID_def enrollInternal_def call_def ok_device_def
      convertAdafruitError_def updateSlotOccupancy_def slot_write_def Let_def
      st_begun_def st_enrolled1_def)

lemma word16_succ_out: "(c :: 16 word) + 1 < 1 \<or> c + 1 > c"
  by unat_arith

lemma w16_succ_facts:
  fixes i c :: "16 word"
  assumes "i < c"
  shows "i + 1 \<noteq> 0" and "i < i + 1" and "i + 1 \<le> c" and "i + 1 - 1 = i"
    and "\<And>j. (i \<le> j) = (j = i \<or> i + 1 \<le> j)"
proof -
  have b: "unat c < 2 ^ 16" using unsigned_less [of c] by simp
  from assms have l: "unat i < unat c" by (simp add: word_less_nat_alt)
  with b have u: "unat (i + 1) = unat i + 1" by (simp add: unat_word_ariths)
  then show "i + 1 \<noteq> 0" by (metis Suc_eq_plus1 nat.distinct(1) unsigned_0)
  from u show "i < i + 1" by (simp add: word_less_nat_alt)
  from u l show "i + 1 \<le> c" by (simp add: word_le_nat_alt)
  show "i + 1 - 1 = i" by simp
  fix j
  from u show "(i \<le> j) = (j = i \<or> i + 1 \<le> j)"
    by (auto simp: word_le_nat_alt word_unat_eq_iff)
qed

lemma w16_pred: "(1::16 word) \<le> j \<Longrightarrow> unat (j - 1) = unat j - 1 \<and> 1 \<le> unat j"
  by (simp add: word_le_nat_alt unat_minus_one word_unat_eq_iff unat_sub)

lemma w16_not_ge1: "\<not> (1::16 word) \<le> j \<Longrightarrow> j = 0"
  by (simp add: word_le_nat_alt word_unat_eq_iff)

lemma slot_id_le: "(1::16 word) \<le> k \<Longrightarrow> (k - 1 \<le> j - 1 \<and> 1 \<le> j) = (k \<le> j)"
proof (cases "1 \<le> j")
  case True
  assume "1 \<le> k"
  with True w16_pred [OF True] w16_pred [of k] show ?thesis by (auto simp: word_le_nat_alt)
next
  case False
  assume k: "1 \<le> k"
  from w16_not_ge1 [OF False] k False show ?thesis by (auto simp: word_le_nat_alt)
qed

lemma slot_id_less: "(1::16 word) \<le> j \<Longrightarrow> (j - 1 < r - 1 \<and> 1 \<le> r) = (j < r)"
proof (cases "1 \<le> r")
  case True
  assume "1 \<le> j"
  with True w16_pred [OF True] w16_pred [of j] show ?thesis by (auto simp: word_less_nat_alt)
next
  case False
  from w16_not_ge1 [OF False] False show ?thesis by (auto simp: word_less_nat_alt)
qed

lemma slot_id_pred_less: "(1::16 word) \<le> j \<Longrightarrow> j \<le> c \<Longrightarrow> j - 1 < c"
  using w16_pred [of j] by (auto simp: word_less_nat_alt word_le_nat_alt)

lemma members_calls [simp]: "members (st\<lparr>calls := c\<rparr>) = members st"
  by (simp add: members_def)

lemma members_eq: "members st' = members st \<Longrightarrow> st' = st\<lparr>calls := calls st'\<rparr>"
  by (cases st, cases st') (simp add: members_def)

lemma members_call [simp]: "members (snd (call dev st c)) = members st"
  by (simp add: call_def)

lemma members_wait [simp]: "members (snd (wait_second_image dev budget st)) = members st"
proof (induction budget arbitrary: st)
  case 0
  show ?case by simp
next
  case (Suc budget)
  show ?case using Suc.IH [of "snd (call dev st GetImage)"]
    by (simp add: split_beta)
qed

lemma members_enrollInternal [simp]:
  "members (snd (enrollInternal dev budget st tid)) = members st"
  by (simp add: enrollInternal_def Let_def split_beta split: option.split)

lemma enrollInternal_frame:
  "enrollInternal dev budget st tid = (r, st') \<Longrightarrow> st' = st\<lparr>calls := calls st'\<rparr>"
  using members_enrollInternal [of dev budget st tid] by (simp add: members_eq)

lemma clear_loop_returns:
  "capacity st \<noteq> 65535 \<Longrightarrow> \<exists>y. clear_loop dev i s st = Some y"
proof (induction "unat (capacity st) + 1 - unat i" arbitrary: i s st rule: less_induct)
  case less
  show ?case
  proof (cases "i \<le> capacity st")
    case False
    then show ?thesis by (subst clear_loop.simps) simp
  next
    case True
    let ?st1 = "st\<lparr>calls := calls st @ [DeleteModel i]\<rparr>"
    from less.prems have "unat (capacity st) \<noteq> 65535" by (simp add: word_unat_eq_iff)
    moreover have "unat (capacity st) < 2 ^ 16" using unsigned_less [of "capacity st"] by simp
    moreover from True have "unat i \<le> unat (capacity st)" by (simp add: word_le_nat_alt)
    ultimately have "unat (i + 1) = unat i + 1" by (simp add: unat_word_ariths)
    with True have m: "unat (capacity ?st1) + 1 - unat (i + 1) < unat (capacity st) + 1 - unat i"
      by (simp add: word_le_nat_alt)
    have c: "capacity ?st1 \<noteq> 65535" using less.prems by simp
    from less.hyps [OF m c] have "\<exists>y. clear_loop dev (i + 1) False ?st1 = Some y"
      and "\<exists>y. clear_loop dev (i + 1) s ?st1 = Some y" by blast+
    with True show ?thesis by (subst clear_loop.simps) (simp add: call_def Let_def)
  qed
qed

lemma clear_loop_frame:
  assumes "clear_loop dev i s st = Some y"
  shows "members (snd y) = members st \<and> (fst y \<longrightarrow> s)"
proof (rule clear_loop.raw_induct
    [where P = "\<lambda>dev i s st y. members (snd y) = members st \<and> (fst y \<longrightarrow> s)", OF _ assms],
    goal_cases)
  case (1 f dev i s st y)
  show ?case
  proof (cases "i \<le> capacity st")
    case False
    with 1(2) show ?thesis by auto
  next
    case True
    let ?st1 = "st\<lparr>calls := calls st @ [DeleteModel i]\<rparr>"
    from True 1(2) obtain s' where r: "f dev (i + 1) s' ?st1 = Some y" and i: "s' \<longrightarrow> s"
      by (auto simp: call_def Let_def split: if_splits)
    from 1(1) [OF r] i show ?thesis by simp
  qed
qed

lemma clear_loop_failing:
  assumes d: "\<forall>h j. dev_status dev h (DeleteModel j) \<noteq> FINGERPRINT_OK \<and>
                    dev_status dev h (DeleteModel j) \<noteq> FINGERPRINT_BADLOCATION"
    and i: "i \<le> capacity st" and r: "clear_loop dev i s st = Some y"
  shows "\<not> fst y"
proof -
  have "clear_loop dev i s st =
        clear_loop dev (i + 1) False (st\<lparr>calls := calls st @ [DeleteModel i]\<rparr>)"
    using d i by (subst clear_loop.simps) (simp add: call_def Let_def)
  with r have "clear_loop dev (i + 1) False (st\<lparr>calls := calls st @ [DeleteModel i]\<rparr>) = Some y"
    by simp
  from clear_loop_frame [OF this] show ?thesis by simp
qed

lemma clear_loop_succeeding:
  assumes "clear_loop dev i s st = Some y"
    and d: "\<forall>h j. dev_status dev h (DeleteModel j) = FINGERPRINT_OK"
  shows "fst y = s"
proof -
  have "dev = dev \<longrightarrow> fst y = s"
  proof (rule clear_loop.raw_induct
      [where P = "\<lambda>dev' i s st y. dev' = dev \<longrightarrow> fst y = s", OF _ assms(1)],
      goal_cases)
    case (1 f dev' i s st y)
    show ?case
    proof
      assume e: "dev' = dev"
      show "fst y = s"
      proof (cases "i \<le> capacity st")
        case False
        with 1(2) show ?thesis by auto
      next
        case True
        let ?st1 = "st\<lparr>calls := calls st @ [DeleteModel i]\<rparr>"
        from True 1(2) e d have "f dev (i + 1) s ?st1 = Some y"
          by (auto simp: call_def Let_def split: if_splits)
        with 1(1) [of dev "i + 1" s ?st1 y] show ?thesis by simp
      qed
    qed
  qed
  then show ?thesis by simp
qed

lemma clearDatabase_uninitialized:
  "\<not> initialized st \<Longrightarrow> clearDatabase dev st = Some (UF_ERROR_NO_SENSOR, st)"
  by (simp add: clearDatabase_def)

lemma clearDatabase_resets:
  assumes "initialized st" and "clearDatabase dev st = Some (e, st')"
  shows "slotOccupancy st' = map_option (\<lambda>xs. replicate (unat (capacity st)) False) (slotOccupancy st) \<and>
         enrolledCount st' = 0 \<and> \<not> databaseScanned st' \<and>
         capacity st' = capacity st \<and> initialized st' \<and> sensorType st' = sensorType st"
proof -
  from assms obtain b st1 where l: "clear_loop dev 1 True st = Some (b, st1)"
    and s: "st' = st1\<lparr>slotOccupancy :=
                          map_option (\<lambda>xs. replicate (unat (capacity st1)) False) (slotOccupancy st1),
                     enrolledCount := 0, databaseScanned := False\<rparr>"
    by (auto simp: clearDatabase_def Let_def split: option.splits)
  from clear_loop_frame [OF l] have "members st1 = members st" by simp
  with s assms(1) show ?thesis by (simp add: members_def)
qed

lemma clearDatabase_returns:
  "capacity st \<noteq> 65535 \<Longrightarrow> \<exists>e st'. clearDatabase dev st = Some (e, st')"
  using clear_loop_returns [of st dev 1 True]
  by (auto simp: clearDatabase_def Let_def split: option.splits)

lemma clearDatabase_code:
  assumes "initialized st" and "clearDatabase dev st = Some (e, st')"
  shows "(\<forall>h j. dev_status dev h (DeleteModel j) = FINGERPRINT_OK) \<longrightarrow> e = UF_OK"
    and "(\<forall>h j. dev_status dev h (DeleteModel j) \<noteq> FINGERPRINT_OK \<and>
                 dev_status dev h (DeleteModel j) \<noteq> FINGERPRINT_BADLOCATION) \<and>
         1 \<le> capacity st \<longrightarrow> e = UF_ERROR_COMM"
proof -
  from assms obtain b st1 where l: "clear_loop dev 1 True st = Some (b, st1)"
    and e: "e = (if b then UF_OK else UF_ERROR_COMM)"
    by (auto simp: clearDatabase_def Let_def split: option.splits)
  from clear_loop_succeeding [OF l] e
  show "(\<forall>h j. dev_status dev h (DeleteModel j) = FINGERPRINT_OK) \<longrightarrow> e = UF_OK" by simp
  from clear_loop_failing [OF _ _ l] e
  show "(\<forall>h j. dev_status dev h (DeleteModel j) \<noteq> FINGERPRINT_OK \<and>
                 dev_status dev h (DeleteModel j) \<noteq> FINGERPRINT_BADLOCATION) \<and>
         1 \<le> capacity st \<longrightarrow> e = UF_ERROR_COMM" by auto
qed

subsection \<open>Frames of the mutating operations\<close>

lemma members_frame:
  "members st' = members st \<Longrightarrow>
   slotOccupancy st' = slotOccupancy st \<and> capacity st' = capacity st \<and>
   enrolledCount st' = enrolledCount st \<and> databaseScanned st' = databaseScanned st \<and>
   initialized st' = initialized st \<and> sensorType st' = sensorType st"
  by (simp add: members_def)

lemma enroll_success:
  assumes w: "well_formed st" and e: "enroll dev budget st tid numScans = (UF_OK, st')"
  shows "validateID st (enroll_slot st tid) \<and>
         slotOccupancy st' =
           map_option (\<lambda>xs. xs[unat (enroll_slot st tid - 1) := True]) (slotOccupancy st) \<and>
         enrolledCount st' = enrolledCount st + 1 \<and> databaseScanned st' \<and>
         capacity st' = capacity st \<and> initialized st \<and> initialized st'"
proof -
  let ?t = "enroll_slot st tid"
  let ?r = "enrollInternal dev budget st ?t"
  from e have i: "initialized st" by (auto simp: enroll_def split: if_splits)
  with w obtain xs where a: "slotOccupancy st = Some xs"
    by (auto simp: well_formed_def split: option.splits)
  from e i have v: "validateID st ?t"
    by (auto simp: enroll_def enroll_slot_def Let_def split: if_splits)
  from e i v have s: "st' = (updateSlotOccupancy (snd ?r) ?t True)\<lparr>enrolledCount := enrolledCount (snd ?r) + 1\<rparr>"
    by (auto simp: enroll_def enroll_slot_def Let_def split_beta split: if_splits)
  note m = members_frame [OF members_enrollInternal [of dev budget st ?t]]
  from v m a have "updateSlotOccupancy (snd ?r) ?t True =
      (slot_write (snd ?r) (unat (?t - 1)) True)\<lparr>databaseScanned := True\<rparr>"
    by (simp add: updateSlotOccupancy_def validateID_def)
  with s m i v show ?thesis by (simp add: slot_write_def)
qed

lemma enroll_failure:
  assumes "enroll dev budget st tid numScans = (e, st')" and "e \<noteq> UF_OK"
  shows "members st' = members st"
proof -
  let ?t = "enroll_slot st tid"
  let ?r = "enrollInternal dev budget st ?t"
  from assms have "st' = st \<or> st' = snd ?r"
    by (auto simp: enroll_def enroll_slot_def Let_def split_beta split: if_splits)
  then show ?thesis by auto
qed

lemma delete_success:
  assumes w: "well_formed st" and e: "deleteTemplate dev st tid = (UF_OK, st')"
  shows "validateID st tid \<and>
         slotOccupancy st' = map_option (\<lambda>xs. xs[unat (tid - 1) := False]) (slotOccupancy st) \<and>
         enrolledCount st' = (if enrolledCount st > 0 then enrolledCount st - 1 else enrolledCount st) \<and>
         databaseScanned st' \<and> capacity st' = capacity st \<and> initialized st \<and> initialized st'"
proof -
  from e have i: "initialized st" by (auto simp: deleteTemplate_def split: if_splits)
  with w obtain xs where a: "slotOccupancy st = Some xs"
    by (auto simp: well_formed_def split: option.splits)
  from e i have v: "validateID st tid"
    by (auto simp: deleteTemplate_def Let_def split: if_splits)
  let ?st1 = "st\<lparr>calls := calls st @ [DeleteModel tid]\<rparr>"
  let ?st2 = "updateSlotOccupancy ?st1 tid False"
  have ne: "convertAdafruitError c = UF_OK \<Longrightarrow> c = FINGERPRINT_OK" for c
    by (simp add: convertAdafruitError_def split: if_splits)
  from e i v have s: "st' = (if enrolledCount ?st2 > 0
        then ?st2\<lparr>enrolledCount := enrolledCount ?st2 - 1\<rparr> else ?st2)"
    by (auto simp: deleteTemplate_def Let_def call_def split: if_splits dest: ne)
  from v a have u: "?st2 = (slot_write ?st1 (unat (tid - 1)) False)\<lparr>databaseScanned := True\<rparr>"
    by (simp add: updateSlotOccupancy_def validateID_def)
  from s u i v show ?thesis by (simp add: slot_write_def)
qed

lemma delete_failure:
  assumes "deleteTemplate dev st tid = (e, st')" and "e \<noteq> UF_OK"
  shows "members st' = members st"
proof -
  from assms have "st' = st \<or> st' = st\<lparr>calls := calls st @ [DeleteModel tid]\<rparr>"
    by (auto simp: deleteTemplate_def Let_def call_def split: if_splits)
  then show ?thesis by auto
qed

lemma members_cache: "members st' = members st \<Longrightarrow> cache st' = cache st"
  by (simp add: members_def cache_def)

lemma enroll_nofinger:
  "enroll nofinger_device 1 st_begun 1 2 =
     (UF_ERROR_NO_FINGER, st_begun\<lparr>calls := calls st_begun @ [GetImage]\<rparr>)"
  by (simp add: enroll_def validateID_def enrollInternal_def call_def nofinger_device_def
      convertAdafruitError_def vendor_defs Let_def st_begun_def)

lemma delete_slot1:
  "deleteTemplate ok_device st_enrolled1 1 =
     (UF_OK, st_enrolled1\<lparr>slotOccupancy := Some ((replicate 162 False)[0 := True, 0 := False]),
                          enrolledCount := 0,
                          calls := calls st_enrolled1 @ [DeleteModel 1]\<rparr>)"
  by (simp add: deleteTemplate_def validateID_def call_def ok_device_def
      updateSlotOccupancy_def slot_write_def Let_def st_enrolled1_def)

lemma delete_badline:
  "deleteTemplate badline_device st_enrolled1 1 =
     (UF_ERROR_COMM, st_enrolled1\<lparr>calls := calls st_enrolled1 @ [DeleteModel 1]\<rparr>)"
  by (simp add: deleteTemplate_def validateID_def call_def badline_device_def
      convertAdafruitError_def vendor_defs Let_def st_enrolled1_def)

lemma well_formed_fixtures:
  "well_formed st_begun" "well_formed st_enrolled1"
  "well_formed (new_UniversalFingerprint t)"
  by (simp_all add: well_formed_def st_begun_def st_enrolled1_def new_UniversalFingerprint_def)

lemma scanDatabase_uninitialized: "\<not> initialized st \<Longrightarrow> scanDatabase dev st = (- 1, st)"
  by (simp add: scanDatabase_def)

lemma begin_all_occupied:
  "begin_uf (accepts_up_to 162) (new_UniversalFingerprint UF_SENSOR_AS608) 0 57600 = (True, st_begun)"
  by (simp add: begin_uf_def new_UniversalFingerprint_def accepts_up_to_def call_def
      lookup_capacity_def SENSOR_DB_def scanDatabase_def st_begun_def Let_def vendor_defs)

lemma delete_slot2: "deleteTemplate ok_device st_enrolled1 2 = (UF_OK, st_deleted2)"
  by (simp add: deleteTemplate_def validateID_def call_def ok_device_def
      updateSlotOccupancy_def slot_write_def Let_def st_enrolled1_def st_deleted2_def)

lemma stats_deleted2:
  "occupiedSlots (fst (snd (getDatabaseStats ok_device st_deleted2))) = 0"
  by (simp add: getDatabaseStats_def st_deleted2_def Let_def)

lemma occupied_deleted2_slot1: "isSlotOccupied st_deleted2 1"
  by (simp add: isSlotOccupied_def slot_read_def st_deleted2_def)

subsection \<open>The invariant is preserved\<close>

lemma scan_loop_inv:
  "scan_loop dev i count st = (st', c) \<Longrightarrow>
   capacity st' = capacity st \<and> initialized st' = initialized st \<and>
   databaseScanned st' = databaseScanned st \<and>
   map_option length (slotOccupancy st') = map_option length (slotOccupancy st)"
proof (induction dev i count st arbitrary: st' c rule: scan_loop.induct)
  case (1 dev i count st)
  note u = scan_loop.simps [of dev i count st]
  show ?case
  proof (cases "i < capacity st")
    case False
    with 1(3) u show ?thesis by simp
  next
    case True
    let ?tid = "i + 1"
    let ?st1 = "st\<lparr>calls := calls st @ [GetTemplateCount ?tid]\<rparr>"
    let ?res = "dev_status dev (calls st) (GetTemplateCount ?tid)"
    have c: "call dev st (GetTemplateCount ?tid) = (?res, ?st1)" by (simp add: call_def)
    show ?thesis
    proof (cases "?res = FINGERPRINT_OK")
      case ok: True
      from 1(3) u True ok
      have "scan_loop dev (i + 1) (count + 1) (slot_write ?st1 (unat i) True) = (st', c)"
        by (simp add: call_def Let_def)
      from 1(1) [OF True refl refl c [symmetric] ok this] show ?thesis
        by (simp add: slot_write_def option.map_comp comp_def)
    next
      case no: False
      from 1(3) u True no
      have "scan_loop dev (i + 1) count (slot_write ?st1 (unat i) False) = (st', c)"
        by (simp add: call_def Let_def)
      from 1(2) [OF True refl refl c [symmetric] no this] show ?thesis
        by (simp add: slot_write_def option.map_comp comp_def)
    qed
  qed
qed

lemma well_formed_scanDatabase:
  "well_formed st \<Longrightarrow> well_formed (snd (scanDatabase dev st))"
proof -
  assume w: "well_formed st"
  show ?thesis
  proof (cases "\<not> initialized st \<or> slotOccupancy st = None")
    case True
    with w show ?thesis by (simp add: scanDatabase_def)
  next
    case False
    obtain st1 c where l: "scan_loop dev 0 0 st = (st1, c)" by fastforce
    from scan_loop_inv [OF l] False w
    have "well_formed (st1\<lparr>enrolledCount := c, databaseScanned := True\<rparr>)"
      by (cases "slotOccupancy st1") (auto simp: well_formed_def split: option.splits)
    with False l show ?thesis by (auto simp: scanDatabase_def)
  qed
qed

lemma well_formed_members:
  "members st' = members st \<Longrightarrow> well_formed st' = well_formed st"
  using members_frame [of st' st] by (simp add: well_formed_def split: option.split)

lemma well_formed_enroll:
  assumes w: "well_formed st"
  shows "well_formed (snd (enroll dev budget st tid numScans))"
proof -
  obtain e st' where r: "enroll dev budget st tid numScans = (e, st')"
    by (cases "enroll dev budget st tid numScans")
  have "well_formed st'"
  proof (cases "e = UF_OK")
    case True
    with r have r': "enroll dev budget st tid numScans = (UF_OK, st')" by simp
    from enroll_success [OF w r']
    have a: "slotOccupancy st' =
               map_option (\<lambda>xs. xs[unat (enroll_slot st tid - 1) := True]) (slotOccupancy st)"
      and b: "capacity st' = capacity st" "initialized st" "initialized st'" by simp_all
    from w b(2) obtain xs where x: "slotOccupancy st = Some xs" "length xs = unat (capacity st)"
      by (cases "slotOccupancy st") (simp_all add: well_formed_def)
    from a b x show ?thesis by (simp add: well_formed_def)
  next
    case False
    from well_formed_members [OF enroll_failure [OF r False]] w show ?thesis by simp
  qed
  with r show ?thesis by simp
qed

lemma well_formed_deleteTemplate:
  assumes w: "well_formed st"
  shows "well_formed (snd (deleteTemplate dev st tid))"
proof -
  obtain e st' where r: "deleteTemplate dev st tid = (e, st')"
    by (cases "deleteTemplate dev st tid")
  have "well_formed st'"
  proof (cases "e = UF_OK")
    case True
    with r have r': "deleteTemplate dev st tid = (UF_OK, st')" by simp
    from delete_success [OF w r']
    have a: "slotOccupancy st' =
               map_option (\<lambda>xs. xs[unat (tid - 1) := False]) (slotOccupancy st)"
      and b: "capacity st' = capacity st" "initialized st" "initialized st'" by simp_all
    from w b(2) obtain xs where x: "slotOccupancy st = Some xs" "length xs = unat (capacity st)"
      by (cases "slotOccupancy st") (simp_all add: well_formed_def)
    from a b x show ?thesis by (simp add: well_formed_def)
  next
    case False
    from well_formed_members [OF delete_failure [OF r False]] w show ?thesis by simp
  qed
  with r show ?thesis by simp
qed

lemma well_formed_clearDatabase:
  assumes w: "well_formed st" and r: "clearDatabase dev st = Some (e, st')"
  shows "well_formed st'"
proof (cases "initialized st")
  case True
  from clearDatabase_resets [OF True r] w True show ?thesis
    by (auto simp: well_formed_def split: option.splits)
next
  case False
  with r w show ?thesis by (simp add: clearDatabase_def)
qed

lemma well_formed_getDatabaseStats:
  "well_formed st \<Longrightarrow> well_formed (snd (snd (getDatabaseStats dev st)))"
  by (simp add: getDatabaseStats_def Let_def well_formed_scanDatabase)

lemma scanDatabase_sized:
  assumes "slotOccupancy x = Some xs" and "length xs = unat (capacity x)"
  shows "\<exists>ys. slotOccupancy (snd (scanDatabase dev x)) = Some ys \<and>
              length ys = unat (capacity (snd (scanDatabase dev x)))"
proof (cases "initialized x")
  case False
  with assms show ?thesis by (simp add: scanDatabase_def)
next
  case True
  obtain st1 c where l: "scan_loop dev 0 0 x = (st1, c)" by fastforce
  from scan_loop_inv [OF l] assms
  have "\<exists>ys. slotOccupancy st1 = Some ys \<and> length ys = unat (capacity st1)"
    by (cases "slotOccupancy st1") auto
  with True assms l show ?thesis by (simp add: scanDatabase_def)
qed

lemma begin_success_shape:
  assumes "fst (begin_uf dev st password baudRate)"
  shows "\<exists>x. snd (begin_uf dev st password baudRate) = (snd (scanDatabase dev x))\<lparr>initialized := True\<rparr> \<and>
             slotOccupancy x = Some (replicate (unat (capacity x)) False)"
proof -
  let ?st2 = "st\<lparr>calls := calls st @ [Begin baudRate, VerifyPassword]\<rparr>"
  let ?st3 = "if sensorType ?st2 = UF_SENSOR_AUTO
                 then (let (t, d, log) = detect dev (calls ?st2) new_UF_SensorDetector
                       in ?st2\<lparr>sensorType := (if t = UF_SENSOR_AUTO then UF_SENSOR_AS608 else t),
                              calls := log\<rparr>)
                 else ?st2"
  let ?st4 = "?st3\<lparr>capacity := lookup_capacity (sensorType ?st3) (capacity ?st3)\<rparr>"
  let ?st5 = "if capacity ?st4 = 0
                 then ?st4\<lparr>sensorType := UF_SENSOR_AS608, capacity := 162\<rparr> else ?st4"
  let ?st6 = "?st5\<lparr>slotOccupancy := Some (replicate (unat (capacity ?st5)) False)\<rparr>"
  from assms have "snd (begin_uf dev st password baudRate) =
      (snd (scanDatabase dev ?st6))\<lparr>initialized := True\<rparr>"
    by (simp add: begin_uf_def Let_def split_beta call_def split: if_splits)
  moreover have "slotOccupancy ?st6 = Some (replicate (unat (capacity ?st6)) False)"
    by simp
  ultimately show ?thesis by blast
qed

lemma well_formed_begin:
  assumes w: "well_formed st"
  shows "well_formed (snd (begin_uf dev st password baudRate))"
proof (cases "fst (begin_uf dev st password baudRate)")
  case False
  then have "members (snd (begin_uf dev st password baudRate)) = members st"
    by (simp add: begin_uf_def Let_def split_beta call_def split: if_splits)
  from well_formed_members [OF this] w show ?thesis by simp
next
  case True
  from begin_success_shape [OF True] obtain x
    where e: "snd (begin_uf dev st password baudRate) = (snd (scanDatabase dev x))\<lparr>initialized := True\<rparr>"
      and a: "slotOccupancy x = Some (replicate (unat (capacity x)) False)" by blast
  from scanDatabase_sized [OF a, of dev] e show ?thesis
    by (auto simp: well_formed_def)
qed

section \<open>Result translator\<close>

text \<open>
  C4 (as amended). The translation is a function on all 256 vendor codes, and a code with
  no case label in the switch resolves to \<^verbatim>\<open>UF_ERROR_COMM\<close>, the communication error:
  the library has no separate "unknown" outcome.
\<close>

theorem convert_unlisted_is_comm:
  "c \<notin> set known_vendor_codes \<Longrightarrow> convertAdafruitError c = UF_ERROR_COMM"
  by (simp add: convertAdafruitError_def known_vendor_codes_def)

theorem convert_unlisted_is_comm_witness:
  "(0xFF :: vendor_code) \<notin> set known_vendor_codes \<and> convertAdafruitError 0xFF = UF_ERROR_COMM"
  using convert_unlisted_is_comm [of "0xFF"]
  by (simp add: known_vendor_codes_def vendor_defs)

text \<open>
  C4 as stated fails at the vendor code \<open>0xFF\<close>: it is not in the table, and it resolves
  to the very outcome the table gives the listed packet receive error, which
  \<^verbatim>\<open>errorToString\<close> prints as a communication error, not as its "Unknown error".
\<close>

theorem convert_unknown_counterexample:
  "(0xFF :: vendor_code) \<notin> set known_vendor_codes \<and>
   FINGERPRINT_PACKETRECIEVEERR \<in> set known_vendor_codes \<and>
   convertAdafruitError 0xFF = convertAdafruitError FINGERPRINT_PACKETRECIEVEERR \<and>
   errorToString (error_value (convertAdafruitError 0xFF)) = ''Communication error'' \<and>
   errorToString (error_value (convertAdafruitError 0xFF)) \<noteq> ''Unknown error''"
  by (simp add: known_vendor_codes_def vendor_defs convertAdafruitError_def errorToString_def)

section \<open>Capability detection\<close>

text \<open>
  C3. \<^verbatim>\<open>detectByCapacity\<close> is the walk over the profiles in descending order of
  capacity, 1000, 300, 256, 200, 162, probing each capacity and taking the first that is
  addressable; these are the capacities of the catalog. \<^verbatim>\<open>detect\<close>, for every device,
  reads the parameter register once and then selects what this walk selects: its
  result, the history of commands it leaves and the type it records are those of the
  walk, and the capacity it records is the catalog's capacity of that type (162 when no
  profile is addressable). For a probe that accepts exactly the indices up to 1000,
  detection selects the R307, the profile of capacity 1000.
\<close>

theorem detect_descending:
  "detectByCapacity dev log = first_addressable dev log profiles_descending \<and>
   map fst profiles_descending = [1000, 300, 256, 200, 162] \<and>
   sorted_wrt (>) (map fst profiles_descending) \<and>
   set profiles_descending =
     set (map (\<lambda>info. (si_capacity info, si_type info))
            (filter (\<lambda>info. si_type info \<noteq> UF_SENSOR_AUTO) SENSOR_DB)) \<and>
   fst (detect dev log d) =
     fst (first_addressable dev (log @ [GetParameters]) profiles_descending) \<and>
   snd (snd (detect dev log d)) =
     snd (first_addressable dev (log @ [GetParameters]) profiles_descending) \<and>
   detectedType (fst (snd (detect dev log d))) = fst (detect dev log d) \<and>
   detectedCapacity (fst (snd (detect dev log d))) =
     (if fst (detect dev log d) = UF_SENSOR_AUTO then 162
      else lookup_capacity (fst (detect dev log d)) 0) \<and>
   ((\<forall>h i. (dev_status dev h (GetTemplateCount i) = FINGERPRINT_OK) = (i \<le> 1000)) \<longrightarrow>
      fst (detectByCapacity dev log) = UF_SENSOR_R307 \<and>
      fst (detect dev log d) = UF_SENSOR_R307 \<and>
      detectedCapacity (fst (snd (detect dev log d))) = 1000 \<and>
      lookup_capacity (fst (detect dev log d)) 0 = 1000)"
proof -
  let ?walk = "first_addressable dev (log @ [GetParameters]) profiles_descending"
  have a: "detectByCapacity dev l = first_addressable dev l profiles_descending" for l
    by (simp add: detectByCapacity_def testSlot_def profiles_descending_def Let_def)
  have b: "map fst profiles_descending = [1000, 300, 256, 200, 162]"
    by (simp add: profiles_descending_def)
  have c: "sorted_wrt (>) (map fst profiles_descending)"
    by (simp add: profiles_descending_def)
  have d: "set profiles_descending =
     set (map (\<lambda>info. (si_capacity info, si_type info))
            (filter (\<lambda>info. si_type info \<noteq> UF_SENSOR_AUTO) SENSOR_DB))"
    by (auto simp: profiles_descending_def SENSOR_DB_def)
  have p: "detectByParameters dev log = (UF_SENSOR_AUTO, log @ [GetParameters])"
    by (simp add: detectByParameters_def Let_def)
  have t: "fst (detect dev log d) = fst ?walk"
    by (simp add: detect_def p a [symmetric] Let_def split_beta)
  have l: "snd (snd (detect dev log d)) = snd ?walk"
    by (simp add: detect_def p a [symmetric] Let_def split_beta)
  have ty: "detectedType (fst (snd (detect dev log d))) = fst (detect dev log d)"
    by (simp add: detect_def p Let_def split_beta)
  have cap: "detectedCapacity (fst (snd (detect dev log d))) =
      (case fst (detect dev log d) of
         UF_SENSOR_AS608 \<Rightarrow> 162 | UF_SENSOR_R307 \<Rightarrow> 1000 | UF_SENSOR_GT511C3 \<Rightarrow> 200
       | UF_SENSOR_ZFM60 \<Rightarrow> 300 | UF_SENSOR_ZFM20 \<Rightarrow> 256 | UF_SENSOR_AUTO \<Rightarrow> 162)"
    by (simp add: detect_def p Let_def split_beta)
  have lk: "lookup_capacity UF_SENSOR_AS608 0 = 162" "lookup_capacity UF_SENSOR_R307 0 = 1000"
    "lookup_capacity UF_SENSOR_GT511C3 0 = 200" "lookup_capacity UF_SENSOR_ZFM60 0 = 300"
    "lookup_capacity UF_SENSOR_ZFM20 0 = 256"
    by (simp_all add: lookup_capacity_def SENSOR_DB_def)
  have cp: "detectedCapacity (fst (snd (detect dev log d))) =
     (if fst (detect dev log d) = UF_SENSOR_AUTO then 162
      else lookup_capacity (fst (detect dev log d)) 0)"
    unfolding cap by (cases "fst (detect dev log d)") (simp_all add: lk)
  have e: "fst (detectByCapacity dev log) = UF_SENSOR_R307 \<and>
      fst (detect dev log d) = UF_SENSOR_R307 \<and>
      detectedCapacity (fst (snd (detect dev log d))) = 1000 \<and>
      lookup_capacity (fst (detect dev log d)) 0 = 1000"
    if h: "\<forall>h i. (dev_status dev h (GetTemplateCount i) = FINGERPRINT_OK) = (i \<le> 1000)"
  proof -
    have w: "\<And>l. fst (first_addressable dev l profiles_descending) = UF_SENSOR_R307"
      using h by (simp add: profiles_descending_def)
    with t have q: "fst (detect dev log d) = UF_SENSOR_R307" by simp
    with cp lk(2) have "detectedCapacity (fst (snd (detect dev log d))) = 1000" by simp
    with q w lk(2) show ?thesis by (simp add: a)
  qed
  from a [of log] b c d t l ty cp e show ?thesis by blast
qed

theorem detect_descending_witness:
  "(\<forall>h i. (dev_status (accepts_up_to 1000) h (GetTemplateCount i) = FINGERPRINT_OK) = (i \<le> 1000)) \<and>
   fst (detect (accepts_up_to 1000) [] new_UF_SensorDetector) = UF_SENSOR_R307 \<and>
   detectedCapacity (fst (snd (detect (accepts_up_to 1000) [] new_UF_SensorDetector))) = 1000 \<and>
   snd (snd (detect (accepts_up_to 1000) [] new_UF_SensorDetector)) =
     [GetParameters, GetTemplateCount 1000] \<and>
   fst (detect (accepts_up_to 300) [] new_UF_SensorDetector) = UF_SENSOR_ZFM60 \<and>
   detectedCapacity (fst (snd (detect (accepts_up_to 300) [] new_UF_SensorDetector))) = 300 \<and>
   snd (snd (detect (accepts_up_to 300) [] new_UF_SensorDetector)) =
     [GetParameters, GetTemplateCount 1000, GetTemplateCount 300] \<and>
   fst (detect (accepts_up_to 100) [] new_UF_SensorDetector) = UF_SENSOR_AUTO \<and>
   detectedCapacity (fst (snd (detect (accepts_up_to 100) [] new_UF_SensorDetector))) = 162"
proof -
  have h: "\<forall>h i. (dev_status (accepts_up_to 1000) h (GetTemplateCount i) = FINGERPRINT_OK) = (i \<le> 1000)"
    by (simp add: accepts_up_to_def vendor_defs)
  have w1: "first_addressable (accepts_up_to 1000) [GetParameters] profiles_descending =
      (UF_SENSOR_R307, [GetParameters, GetTemplateCount 1000])"
    by (simp add: accepts_up_to_def profiles_descending_def vendor_defs)
  have w2: "first_addressable (accepts_up_to 300) [GetParameters] profiles_descending =
      (UF_SENSOR_ZFM60, [GetParameters, GetTemplateCount 1000, GetTemplateCount 300])"
    by (simp add: accepts_up_to_def profiles_descending_def vendor_defs)
  have w3: "fst (first_addressable (accepts_up_to 100) [GetParameters] profiles_descending) =
      UF_SENSOR_AUTO"
    by (simp add: accepts_up_to_def profiles_descending_def vendor_defs)
  have k: "lookup_capacity UF_SENSOR_ZFM60 0 = 300"
    by (simp add: lookup_capacity_def SENSOR_DB_def)
  note T1 = detect_descending [of "accepts_up_to 1000" "[]" new_UF_SensorDetector]
  from T1 h have a1: "fst (detect (accepts_up_to 1000) [] new_UF_SensorDetector) = UF_SENSOR_R307"
    and a2: "detectedCapacity (fst (snd (detect (accepts_up_to 1000) [] new_UF_SensorDetector))) = 1000"
    by blast+
  from T1 have "snd (snd (detect (accepts_up_to 1000) [] new_UF_SensorDetector)) =
      snd (first_addressable (accepts_up_to 1000) ([] @ [GetParameters]) profiles_descending)"
    by blast
  with w1 have a3: "snd (snd (detect (accepts_up_to 1000) [] new_UF_SensorDetector)) =
      [GetParameters, GetTemplateCount 1000]" by simp
  note A = a1 a2 a3
  note T2 = detect_descending [of "accepts_up_to 300" "[]" new_UF_SensorDetector]
  from T2 have "fst (detect (accepts_up_to 300) [] new_UF_SensorDetector) =
      fst (first_addressable (accepts_up_to 300) ([] @ [GetParameters]) profiles_descending)"
    by blast
  with w2 have b1: "fst (detect (accepts_up_to 300) [] new_UF_SensorDetector) = UF_SENSOR_ZFM60"
    by simp
  from T2 have "detectedCapacity (fst (snd (detect (accepts_up_to 300) [] new_UF_SensorDetector))) =
     (if fst (detect (accepts_up_to 300) [] new_UF_SensorDetector) = UF_SENSOR_AUTO then 162
      else lookup_capacity (fst (detect (accepts_up_to 300) [] new_UF_SensorDetector)) 0)"
    by blast
  with b1 k have b2: "detectedCapacity (fst (snd (detect (accepts_up_to 300) [] new_UF_SensorDetector))) = 300"
    by simp
  from T2 have "snd (snd (detect (accepts_up_to 300) [] new_UF_SensorDetector)) =
      snd (first_addressable (accepts_up_to 300) ([] @ [GetParameters]) profiles_descending)"
    by blast
  with w2 have b3: "snd (snd (detect (accepts_up_to 300) [] new_UF_SensorDetector)) =
      [GetParameters, GetTemplateCount 1000, GetTemplateCount 300]" by simp
  note B = b1 b2 b3
  note T3 = detect_descending [of "accepts_up_to 100" "[]" new_UF_SensorDetector]
  from T3 have "fst (detect (accepts_up_to 100) [] new_UF_SensorDetector) =
      fst (first_addressable (accepts_up_to 100) ([] @ [GetParameters]) profiles_descending)"
    by blast
  with w3 have c1: "fst (detect (accepts_up_to 100) [] new_UF_SensorDetector) = UF_SENSOR_AUTO"
    by simp
  from T3 have "detectedCapacity (fst (snd (detect (accepts_up_to 100) [] new_UF_SensorDetector))) =
     (if fst (detect (accepts_up_to 100) [] new_UF_SensorDetector) = UF_SENSOR_AUTO then 162
      else lookup_capacity (fst (detect (accepts_up_to 100) [] new_UF_SensorDetector)) 0)"
    by blast
  with c1 have c2: "detectedCapacity (fst (snd (detect (accepts_up_to 100) [] new_UF_SensorDetector))) = 162"
    by simp
  note C = c1 c2
  from h A B C show ?thesis by blast
qed

section \<open>Queries on the cache\<close>

text \<open>
  C9. \<^verbatim>\<open>isSlotOccupied\<close> returns false for slot 0 and for slot \<open>capacity + 1\<close> (which is
  0 again when the capacity is 65535), for every id outside \<open>[1, capacity]\<close>, and
  whenever the database has not been scanned. The function has no failing path.
\<close>

theorem isSlotOccupied_outside:
  "isSlotOccupied st 0 = False \<and>
   isSlotOccupied st (capacity st + 1) = False \<and>
   (tid < 1 \<or> tid > capacity st \<or> \<not> databaseScanned st \<longrightarrow> isSlotOccupied st tid = False)"
  using word16_succ_out [of "capacity st"] by (auto simp: isSlotOccupied_def)

theorem isSlotOccupied_outside_witness:
  "163 > capacity st_enrolled1 \<and> isSlotOccupied st_enrolled1 163 = False \<and>
   \<not> databaseScanned st_begun \<and> isSlotOccupied st_begun 1 = False \<and>
   isSlotOccupied st_enrolled1 1 = True"
proof -
  have a: "163 > capacity st_enrolled1" by (simp add: st_enrolled1_def)
  have b: "\<not> databaseScanned st_begun" by (simp add: st_begun_def)
  have c: "isSlotOccupied st_enrolled1 1 = True"
    by (simp add: isSlotOccupied_def slot_read_def st_enrolled1_def)
  from a b c isSlotOccupied_outside [of st_enrolled1 163] isSlotOccupied_outside [of st_begun 1]
  show ?thesis by blast
qed

lemma findEmptySlot_loop_zero:
  "findEmptySlot_loop st i = 0 \<Longrightarrow> i \<le> j \<Longrightarrow> j < capacity st \<Longrightarrow> slot_read st (unat j)"
proof (induction st i rule: findEmptySlot_loop.induct)
  case (1 st i)
  from 1(3,4) have lt: "i < capacity st" by simp
  note u = findEmptySlot_loop.simps [of st i]
  from 1(2) lt u have r: "slot_read st (unat i)"
    using w16_succ_facts(1) [OF lt] by (auto split: if_splits)
  with 1(2) lt u have z: "findEmptySlot_loop st (i + 1) = 0" by simp
  show ?case
  proof (cases "j = i")
    case True
    with r show ?thesis by simp
  next
    case False
    with 1(3) w16_succ_facts(5) [OF lt] have "i + 1 \<le> j" by simp
    from 1(1) [OF lt _ z this 1(4)] r show ?thesis by simp
  qed
qed

lemma findEmptySlot_loop_found:
  "findEmptySlot_loop st i = r \<Longrightarrow> r \<noteq> 0 \<Longrightarrow>
   i < r \<and> r \<le> capacity st \<and> \<not> slot_read st (unat (r - 1)) \<and>
   (\<forall>j. i \<le> j \<and> j < r - 1 \<longrightarrow> slot_read st (unat j))"
proof (induction st i arbitrary: r rule: findEmptySlot_loop.induct)
  case (1 st i)
  note u = findEmptySlot_loop.simps [of st i]
  from 1(2,3) u have lt: "i < capacity st" by (auto split: if_splits)
  note f = w16_succ_facts [OF lt]
  show ?case
  proof (cases "slot_read st (unat i)")
    case False
    with 1(2) lt u have "r = i + 1" by simp
    with False f show ?thesis by auto
  next
    case True
    with 1(2) lt u have "findEmptySlot_loop st (i + 1) = r" by simp
    from 1(1) [OF lt _ this 1(3)] True
    have a: "i + 1 < r" "r \<le> capacity st" "\<not> slot_read st (unat (r - 1))"
      and b: "\<forall>j. i + 1 \<le> j \<and> j < r - 1 \<longrightarrow> slot_read st (unat j)" by auto
    from a(1) f(2) have "i < r" by simp
    moreover have "\<forall>j. i \<le> j \<and> j < r - 1 \<longrightarrow> slot_read st (unat j)"
      using b True f(5) by auto
    ultimately show ?thesis using a by simp
  qed
qed

text \<open>
  C5 (as amended). On a scanned cache \<^verbatim>\<open>findEmptySlot(k)\<close> with \<open>k\<close> in
  \<open>[1, capacity]\<close> returns the smallest slot id at or after \<open>k\<close> that is not occupied,
  and 0 when every slot from \<open>k\<close> to the capacity is occupied. It returns 0 when \<open>k\<close> is
  outside \<open>[1, capacity]\<close>, and also whenever the cache is not marked scanned, whatever
  the entries are.
\<close>

theorem findEmptySlot_scanned:
  assumes w: "well_formed st"
  shows "(\<not> databaseScanned st \<or> k < 1 \<or> k > capacity st \<longrightarrow> findEmptySlot st k = 0) \<and>
         (databaseScanned st \<and> 1 \<le> k \<and> k \<le> capacity st \<longrightarrow>
            (if \<exists>j. k \<le> j \<and> j \<le> capacity st \<and> \<not> isSlotOccupied st j
             then k \<le> findEmptySlot st k \<and> findEmptySlot st k \<le> capacity st \<and>
                  \<not> isSlotOccupied st (findEmptySlot st k) \<and>
                  (\<forall>j. k \<le> j \<and> j < findEmptySlot st k \<longrightarrow> isSlotOccupied st j)
             else findEmptySlot st k = 0))"
proof -
  have a: "\<not> databaseScanned st \<or> k < 1 \<or> k > capacity st \<longrightarrow> findEmptySlot st k = 0"
    by (auto simp: findEmptySlot_def)
  have b: "(if \<exists>j. k \<le> j \<and> j \<le> capacity st \<and> \<not> isSlotOccupied st j
             then k \<le> findEmptySlot st k \<and> findEmptySlot st k \<le> capacity st \<and>
                  \<not> isSlotOccupied st (findEmptySlot st k) \<and>
                  (\<forall>j. k \<le> j \<and> j < findEmptySlot st k \<longrightarrow> isSlotOccupied st j)
             else findEmptySlot st k = 0)"
    if s: "databaseScanned st" and k: "1 \<le> k" "k \<le> capacity st"
  proof -
    let ?r = "findEmptySlot st k"
    from k(1) have k1: "\<not> k < 1" by (rule leD)
    from k(2) have "\<not> k > capacity st" by (rule leD)
    note k1 this
    with s have e: "?r = findEmptySlot_loop st (k - 1)"
      unfolding findEmptySlot_def by (simp only: simp_thms if_False)
    have occ: "\<And>j. 1 \<le> j \<Longrightarrow> j \<le> capacity st \<Longrightarrow> isSlotOccupied st j = slot_read st (unat (j - 1))"
      using s by (auto simp: isSlotOccupied_def)
    show ?thesis
    proof (cases "?r = 0")
      case True
      have "isSlotOccupied st j" if j: "k \<le> j" "j \<le> capacity st" for j
      proof -
        from j k have j1: "1 \<le> j" by simp
        with j slot_id_le [OF k(1), of j] have "k - 1 \<le> j - 1" by simp
        moreover from j1 j(2) have "j - 1 < capacity st" by (rule slot_id_pred_less)
        ultimately have "slot_read st (unat (j - 1))"
          using findEmptySlot_loop_zero [of st "k - 1" "j - 1"] True e by simp
        with occ [OF j1 j(2)] show ?thesis by simp
      qed
      with True show ?thesis by auto
    next
      case False
      from findEmptySlot_loop_found [OF e [symmetric] False]
      have f: "k - 1 < ?r" "?r \<le> capacity st" "\<not> slot_read st (unat (?r - 1))"
        and g: "\<forall>j. k - 1 \<le> j \<and> j < ?r - 1 \<longrightarrow> slot_read st (unat j)" by auto
      from False have r1: "1 \<le> ?r" by (simp add: word_le_nat_alt word_unat_eq_iff)
      from f(1) r1 have kr: "k \<le> ?r"
        using w16_pred [OF k(1)] by (auto simp: word_less_nat_alt word_le_nat_alt)
      from f(3) occ [OF r1 f(2)] have no: "\<not> isSlotOccupied st ?r" by simp
      have "isSlotOccupied st j" if j: "k \<le> j" "j < ?r" for j
      proof -
        from j k have j1: "1 \<le> j" by simp
        from j f(2) have jc: "j \<le> capacity st" by simp
        from j slot_id_le [OF k(1), of j] have "k - 1 \<le> j - 1" by simp
        moreover from slot_id_less [OF j1, of ?r] j(2) have "j - 1 < ?r - 1" by simp
        ultimately have "slot_read st (unat (j - 1))" using g by simp
        with occ [OF j1 jc] show ?thesis by simp
      qed
      with kr f(2) no show ?thesis by auto
    qed
  qed
  from a b show ?thesis by blast
qed

theorem findEmptySlot_scanned_witness:
  "well_formed st_enrolled1 \<and> databaseScanned st_enrolled1 \<and>
   1 \<le> capacity st_enrolled1 \<and> 2 \<le> capacity st_enrolled1 \<and>
   \<not> isSlotOccupied st_enrolled1 2 \<and>
   1 \<le> findEmptySlot st_enrolled1 1 \<and>
   \<not> isSlotOccupied st_enrolled1 (findEmptySlot st_enrolled1 1) \<and>
   findEmptySlot st_enrolled1 1 = 2 \<and>
   well_formed st_begun \<and> \<not> databaseScanned st_begun \<and> findEmptySlot st_begun 1 = 0"
proof -
  have w: "well_formed st_enrolled1" by (simp add: well_formed_def st_enrolled1_def)
  have w0: "well_formed st_begun" by (simp add: well_formed_def st_begun_def)
  have s: "databaseScanned st_enrolled1" "1 \<le> capacity st_enrolled1" "2 \<le> capacity st_enrolled1"
    by (simp_all add: st_enrolled1_def)
  have e: "\<not> isSlotOccupied st_enrolled1 2"
    by (simp add: isSlotOccupied_def slot_read_def st_enrolled1_def)
  have v: "findEmptySlot st_enrolled1 1 = 2"
    by (simp add: findEmptySlot_def findEmptySlot_loop.simps slot_read_def st_enrolled1_def)
  have u: "\<not> databaseScanned st_begun" by (simp add: st_begun_def)
  from e s have x: "\<exists>j. 1 \<le> j \<and> j \<le> capacity st_enrolled1 \<and> \<not> isSlotOccupied st_enrolled1 j"
    by (intro exI [of _ 2]) simp
  from findEmptySlot_scanned [OF w, of 1] s x
  have "1 \<le> findEmptySlot st_enrolled1 1 \<and>
        \<not> isSlotOccupied st_enrolled1 (findEmptySlot st_enrolled1 1)" by simp
  moreover from findEmptySlot_scanned [OF w0, of 1] u have "findEmptySlot st_begun 1 = 0" by simp
  ultimately show ?thesis using w w0 s e v u by simp
qed

text \<open>
  C5 as stated fails on the cache of a facade after its first \<^verbatim>\<open>begin()\<close>: the cache is
  not marked scanned, the entry of slot 1 is false, and \<^verbatim>\<open>findEmptySlot(1)\<close> returns 0,
  not 1.
\<close>

theorem findEmptySlot_unscanned_counterexample:
  "well_formed st_begun \<and> 1 \<le> capacity st_begun \<and>
   slotOccupancy st_begun = Some (replicate 162 False) \<and>
   \<not> slot_read st_begun 0 \<and> \<not> isSlotOccupied st_begun 1 \<and>
   findEmptySlot st_begun 1 = 0 \<and> findEmptySlot st_begun 1 \<noteq> 1"
  by (simp add: well_formed_def st_begun_def slot_read_def isSlotOccupied_def findEmptySlot_def)

section \<open>Finger detection\<close>

text \<open>
  C10. On an initialized facade \<^verbatim>\<open>isFingerPresent\<close> returns true exactly when the image
  capture answers OK or "no finger"; so it reports a finger when the device says that
  there is none.
\<close>

theorem isFingerPresent_ok_or_nofinger:
  "initialized st \<Longrightarrow>
   fst (isFingerPresent dev st) =
     (dev_status dev (calls st) GetImage = FINGERPRINT_OK \<or>
      dev_status dev (calls st) GetImage = FINGERPRINT_NOFINGER) \<and>
   (dev_status dev (calls st) GetImage = FINGERPRINT_NOFINGER \<longrightarrow> fst (isFingerPresent dev st))"
  by (simp add: isFingerPresent_def call_def)

theorem isFingerPresent_ok_or_nofinger_witness:
  "initialized st_begun \<and>
   dev_status nofinger_device (calls st_begun) GetImage = FINGERPRINT_NOFINGER \<and>
   fst (isFingerPresent nofinger_device st_begun)"
proof -
  have a: "initialized st_begun" by (simp add: st_begun_def)
  have b: "dev_status nofinger_device (calls st_begun) GetImage = FINGERPRINT_NOFINGER"
    by (simp add: nofinger_device_def)
  from isFingerPresent_ok_or_nofinger [OF a, of nofinger_device] b a show ?thesis by blast
qed

section \<open>Enrollment\<close>

text \<open>
  C7. On a well-formed facade, if the cache is scanned and slot \<open>tid\<close> is marked occupied,
  \<^verbatim>\<open>enroll(tid)\<close> returns \<^verbatim>\<open>UF_ERROR_DUPLICATE_ID\<close> and leaves the facade as it was:
  the command history, the occupied count and every occupancy entry are unchanged.
\<close>

theorem enroll_occupied_rejected:
  "well_formed st \<Longrightarrow> isSlotOccupied st tid \<Longrightarrow>
   enroll dev budget st tid numScans = (UF_ERROR_DUPLICATE_ID, st)"
proof -
  assume w: "well_formed st" and o: "isSlotOccupied st tid"
  from o have s: "databaseScanned st" and nz: "tid \<noteq> 0" and r2: "tid \<le> capacity st"
    and c: "slot_read st (unat (tid - 1))"
    by (auto simp: isSlotOccupied_def split: if_splits)
  from nz have r1: "1 \<le> tid" using w16_not_ge1 by blast
  note r = r1 r2
  from w s have i: "initialized st" by (simp add: well_formed_def)
  from i s r c nz show ?thesis by (simp add: enroll_def validateID_def Let_def)
qed


theorem enroll_occupied_rejected_witness:
  "well_formed st_enrolled1 \<and> isSlotOccupied st_enrolled1 1 \<and>
   enroll ok_device 1 st_enrolled1 1 2 = (UF_ERROR_DUPLICATE_ID, st_enrolled1)"
proof -
  have w: "well_formed st_enrolled1" by (simp add: well_formed_def st_enrolled1_def)
  have o: "isSlotOccupied st_enrolled1 1"
    by (simp add: isSlotOccupied_def slot_read_def st_enrolled1_def)
  from enroll_occupied_rejected [OF w o] w o show ?thesis by simp
qed




section \<open>Cache updates of the mutating operations\<close>

text \<open>
  C6 (as amended). On a well-formed facade: a successful enroll sets exactly the entry of
  the slot it worked on, a successful delete clears exactly the entry of its slot, and
  both mark the cache scanned; an enroll or a delete that does not succeed leaves the
  occupancy entries, the occupied count and the scanned flag unchanged. A clear on an
  initialized facade, whether it reports success or a communication error, sets all
  entries empty, the count to 0 and the cache to not scanned; on a facade that is not
  initialized it changes nothing. The clear returns for every capacity below 65535.
\<close>

theorem mutation_updates_cache:
  assumes w: "well_formed st"
  shows
   "(enroll dev budget st tid numScans = (UF_OK, st') \<longrightarrow>
        validateID st (enroll_slot st tid) \<and>
        slotOccupancy st' =
          map_option (\<lambda>xs. xs[unat (enroll_slot st tid - 1) := True]) (slotOccupancy st) \<and>
        enrolledCount st' = enrolledCount st + 1 \<and> databaseScanned st') \<and>
    (enroll dev budget st tid numScans = (e, st') \<and> e \<noteq> UF_OK \<longrightarrow> cache st' = cache st) \<and>
    (deleteTemplate dev st tid = (UF_OK, st') \<longrightarrow>
        validateID st tid \<and>
        slotOccupancy st' = map_option (\<lambda>xs. xs[unat (tid - 1) := False]) (slotOccupancy st) \<and>
        databaseScanned st') \<and>
    (deleteTemplate dev st tid = (e, st') \<and> e \<noteq> UF_OK \<longrightarrow> cache st' = cache st) \<and>
    (initialized st \<and> clearDatabase dev st = Some (e, st') \<longrightarrow>
        cache st' = (Some (replicate (unat (capacity st)) False), 0, False)) \<and>
    (\<not> initialized st \<longrightarrow> clearDatabase dev st = Some (UF_ERROR_NO_SENSOR, st)) \<and>
    (capacity st \<noteq> 65535 \<longrightarrow> clearDatabase dev st \<noteq> None)"
proof -
  have a: "enroll dev budget st tid numScans = (UF_OK, st') \<longrightarrow>
        validateID st (enroll_slot st tid) \<and>
        slotOccupancy st' =
          map_option (\<lambda>xs. xs[unat (enroll_slot st tid - 1) := True]) (slotOccupancy st) \<and>
        enrolledCount st' = enrolledCount st + 1 \<and> databaseScanned st'"
    using enroll_success [OF w] by blast
  have b: "enroll dev budget st tid numScans = (e, st') \<and> e \<noteq> UF_OK \<longrightarrow> cache st' = cache st"
    using enroll_failure members_cache by blast
  have c: "deleteTemplate dev st tid = (UF_OK, st') \<longrightarrow>
        validateID st tid \<and>
        slotOccupancy st' = map_option (\<lambda>xs. xs[unat (tid - 1) := False]) (slotOccupancy st) \<and>
        databaseScanned st'"
    using delete_success [OF w] by blast
  have d: "deleteTemplate dev st tid = (e, st') \<and> e \<noteq> UF_OK \<longrightarrow> cache st' = cache st"
    using delete_failure members_cache by blast
  have f: "cache st' = (Some (replicate (unat (capacity st)) False), 0, False)"
    if i: "initialized st" and r: "clearDatabase dev st = Some (e, st')"
  proof -
    from w i obtain xs where "slotOccupancy st = Some xs"
      by (auto simp: well_formed_def split: option.splits)
    with clearDatabase_resets [OF i r] show ?thesis by (simp add: cache_def)
  qed
  have g: "\<not> initialized st \<longrightarrow> clearDatabase dev st = Some (UF_ERROR_NO_SENSOR, st)"
    by (simp add: clearDatabase_uninitialized)
  have h: "capacity st \<noteq> 65535 \<longrightarrow> clearDatabase dev st \<noteq> None"
    using clearDatabase_returns [of st dev] by auto
  from a b c d f g h show ?thesis by blast
qed

theorem mutation_updates_cache_witness:
  "well_formed st_begun \<and> well_formed st_enrolled1 \<and>
   well_formed (new_UniversalFingerprint UF_SENSOR_AS608) \<and>
   enroll ok_device 1 st_begun 1 2 = (UF_OK, st_enrolled1) \<and>
   slotOccupancy st_enrolled1 =
     map_option (\<lambda>xs. xs[unat (enroll_slot st_begun 1 - 1) := True]) (slotOccupancy st_begun) \<and>
   enroll nofinger_device 1 st_begun 1 2 =
     (UF_ERROR_NO_FINGER, st_begun\<lparr>calls := calls st_begun @ [GetImage]\<rparr>) \<and>
   UF_ERROR_NO_FINGER \<noteq> UF_OK \<and>
   cache (st_begun\<lparr>calls := calls st_begun @ [GetImage]\<rparr>) = cache st_begun \<and>
   fst (deleteTemplate ok_device st_enrolled1 1) = UF_OK \<and>
   slotOccupancy (snd (deleteTemplate ok_device st_enrolled1 1)) =
     map_option (\<lambda>xs. xs[unat ((1::16 word) - 1) := False]) (slotOccupancy st_enrolled1) \<and>
   fst (deleteTemplate badline_device st_enrolled1 1) = UF_ERROR_COMM \<and>
   UF_ERROR_COMM \<noteq> UF_OK \<and>
   cache (snd (deleteTemplate badline_device st_enrolled1 1)) = cache st_enrolled1 \<and>
   initialized st_enrolled1 \<and> capacity st_enrolled1 \<noteq> 65535 \<and>
   clearDatabase ok_device st_enrolled1 \<noteq> None \<and>
   cache (snd (the (clearDatabase ok_device st_enrolled1))) =
     (Some (replicate (unat (capacity st_enrolled1)) False), 0, False) \<and>
   \<not> initialized (new_UniversalFingerprint UF_SENSOR_AS608) \<and>
   clearDatabase ok_device (new_UniversalFingerprint UF_SENSOR_AS608) =
     Some (UF_ERROR_NO_SENSOR, new_UniversalFingerprint UF_SENSOR_AS608)"
proof -
  note w = well_formed_fixtures
  note e1 = enroll_slot1
  note e2 = enroll_nofinger
  note d1 = delete_slot1
  note d2 = delete_badline
  have i: "initialized st_enrolled1" "capacity st_enrolled1 \<noteq> 65535"
    "\<not> initialized (new_UniversalFingerprint UF_SENSOR_AS608)"
    by (simp_all add: st_enrolled1_def new_UniversalFingerprint_def)
  from mutation_updates_cache [OF w(1), where dev = ok_device and budget = 1 and tid = 1 and numScans = 2 and st' = st_enrolled1] e1
  have A: "slotOccupancy st_enrolled1 =
     map_option (\<lambda>xs. xs[unat (enroll_slot st_begun 1 - 1) := True]) (slotOccupancy st_begun)"
    by blast
  have n: "UF_ERROR_NO_FINGER \<noteq> UF_OK" "UF_ERROR_COMM \<noteq> UF_OK" by simp_all
  from mutation_updates_cache [OF w(1), where dev = nofinger_device and budget = 1 and tid = 1
      and numScans = 2 and e = UF_ERROR_NO_FINGER
      and st' = "st_begun\<lparr>calls := calls st_begun @ [GetImage]\<rparr>"] e2 n
  have B: "cache (st_begun\<lparr>calls := calls st_begun @ [GetImage]\<rparr>) = cache st_begun"
    by blast
  obtain sd where sd: "deleteTemplate ok_device st_enrolled1 1 = (UF_OK, sd)"
    using d1 by blast
  from mutation_updates_cache [OF w(2), where dev = ok_device and tid = 1 and st' = sd] sd
  have C: "slotOccupancy sd =
     map_option (\<lambda>xs. xs[unat ((1::16 word) - 1) := False]) (slotOccupancy st_enrolled1)"
    by blast
  obtain sb where sb: "deleteTemplate badline_device st_enrolled1 1 = (UF_ERROR_COMM, sb)"
    using d2 by blast
  from mutation_updates_cache [OF w(2), where dev = badline_device and tid = 1 and e = UF_ERROR_COMM and st' = sb] sb n
  have D: "cache sb = cache st_enrolled1" by blast
  from mutation_updates_cache [OF w(2), where dev = ok_device] i
  have E: "clearDatabase ok_device st_enrolled1 \<noteq> None" by blast
  then obtain ec sc where sc: "clearDatabase ok_device st_enrolled1 = Some (ec, sc)" by auto
  from mutation_updates_cache [OF w(2), where dev = ok_device and e = ec and st' = sc] sc i
  have F: "cache sc = (Some (replicate (unat (capacity st_enrolled1)) False), 0, False)"
    by blast
  from mutation_updates_cache [OF w(3) [of UF_SENSOR_AS608], where dev = ok_device] i
  have G: "clearDatabase ok_device (new_UniversalFingerprint UF_SENSOR_AS608) =
     Some (UF_ERROR_NO_SENSOR, new_UniversalFingerprint UF_SENSOR_AS608)" by blast
  from w e1 e2 i n A B C D E F G sd sb sc show ?thesis by simp
qed

text \<open>
  C6 as stated fails for a clear that does not succeed. On the facade with slot 1
  enrolled and a device that answers every delete with a packet receive error,
  \<^verbatim>\<open>clearDatabase\<close> returns \<^verbatim>\<open>UF_ERROR_COMM\<close> and has emptied the cache all the same.
\<close>

theorem clear_failure_counterexample:
  "well_formed st_enrolled1 \<and>
   cache st_enrolled1 = (Some ((replicate 162 False)[0 := True]), 1, True) \<and>
   clearDatabase badline_device st_enrolled1 \<noteq> None \<and>
   fst (the (clearDatabase badline_device st_enrolled1)) = UF_ERROR_COMM \<and>
   cache (snd (the (clearDatabase badline_device st_enrolled1))) =
     (Some (replicate 162 False), 0, False) \<and>
   cache (snd (the (clearDatabase badline_device st_enrolled1))) \<noteq> cache st_enrolled1"
proof -
  have i: "initialized st_enrolled1" "capacity st_enrolled1 \<noteq> 65535" "1 \<le> capacity st_enrolled1"
    "slotOccupancy st_enrolled1 = Some ((replicate 162 False)[0 := True])"
    "capacity st_enrolled1 = 162"
    by (simp_all add: st_enrolled1_def)
  have c: "cache st_enrolled1 = (Some ((replicate 162 False)[0 := True]), 1, True)"
    by (simp add: cache_def st_enrolled1_def)
  from clearDatabase_returns [OF i(2), of badline_device]
  obtain e st' where r: "clearDatabase badline_device st_enrolled1 = Some (e, st')" by blast
  have d: "\<forall>h j. dev_status badline_device h (DeleteModel j) \<noteq> FINGERPRINT_OK \<and>
                 dev_status badline_device h (DeleteModel j) \<noteq> FINGERPRINT_BADLOCATION"
    by (simp add: badline_device_def vendor_defs)
  from clearDatabase_code(2) [OF i(1) r] d i(3) have e: "e = UF_ERROR_COMM" by blast
  from clearDatabase_resets [OF i(1) r] i(4,5)
  have s: "cache st' = (Some (replicate 162 False), 0, False)" by (simp add: cache_def)
  have "(replicate 162 False)[0 := True] \<noteq> replicate 162 False"
    by (metis length_replicate nth_list_update_eq nth_replicate zero_less_numeral)
  with c s have "cache st' \<noteq> cache st_enrolled1" by simp
  with r e s c well_formed_fixtures(2) show ?thesis by simp
qed

section \<open>Initialization\<close>

text \<open>
  C2 fails on the code. On a facade that has never been initialized, a \<^verbatim>\<open>begin()\<close> that
  returns true has not scanned: \<^verbatim>\<open>scanDatabase()\<close> is called while \<^verbatim>\<open>_initialized\<close> is
  still false and returns \<open>-1\<close> at its guard. The cache is left not scanned, with all
  entries empty and the count as it was, so \<^verbatim>\<open>findEmptySlot\<close> answers 0 and
  \<^verbatim>\<open>isSlotOccupied\<close> answers false for every slot, whatever the device holds.
\<close>

theorem begin_first_call_skips_scan:
  assumes n: "\<not> initialized st" and u: "\<not> databaseScanned st"
    and b: "fst (begin_uf dev st password baudRate)"
  shows "\<not> databaseScanned (snd (begin_uf dev st password baudRate)) \<and>
         initialized (snd (begin_uf dev st password baudRate)) \<and>
         enrolledCount (snd (begin_uf dev st password baudRate)) = enrolledCount st \<and>
         slotOccupancy (snd (begin_uf dev st password baudRate)) =
           Some (replicate (unat (capacity (snd (begin_uf dev st password baudRate)))) False) \<and>
         findEmptySlot (snd (begin_uf dev st password baudRate)) 1 = 0 \<and>
         \<not> isSlotOccupied (snd (begin_uf dev st password baudRate)) tid"
proof -
  let ?st' = "snd (begin_uf dev st password baudRate)"
  have s: "\<And>x. \<not> initialized x \<Longrightarrow> scanDatabase dev x = (- 1, x)"
    by (rule scanDatabase_uninitialized)
  from b n u have "\<not> databaseScanned ?st' \<and> initialized ?st' \<and>
      enrolledCount ?st' = enrolledCount st \<and>
      slotOccupancy ?st' = Some (replicate (unat (capacity ?st')) False)"
    by (simp add: begin_uf_def Let_def split_beta call_def s split: if_splits)
  then show ?thesis by (simp add: findEmptySlot_def isSlotOccupied_def)
qed

theorem begin_first_call_skips_scan_witness:
  "\<not> initialized (new_UniversalFingerprint UF_SENSOR_AS608) \<and>
   \<not> databaseScanned (new_UniversalFingerprint UF_SENSOR_AS608) \<and>
   dev_status (accepts_up_to 162) [Begin 57600, VerifyPassword] (GetTemplateCount 1) = FINGERPRINT_OK \<and>
   begin_uf (accepts_up_to 162) (new_UniversalFingerprint UF_SENSOR_AS608) 0 57600 = (True, st_begun) \<and>
   \<not> databaseScanned st_begun \<and> calls st_begun = [Begin 57600, VerifyPassword] \<and>
   findEmptySlot st_begun 1 = 0 \<and> \<not> isSlotOccupied st_begun 1"
proof -
  let ?st = "new_UniversalFingerprint UF_SENSOR_AS608"
  have n: "\<not> initialized ?st" and u: "\<not> databaseScanned ?st"
    by (simp_all add: new_UniversalFingerprint_def)
  have d: "dev_status (accepts_up_to 162) [Begin 57600, VerifyPassword] (GetTemplateCount 1) = FINGERPRINT_OK"
    by (simp add: accepts_up_to_def)
  note e = begin_all_occupied
  then have b: "fst (begin_uf (accepts_up_to 162) ?st 0 57600)" by simp
  have c: "calls st_begun = [Begin 57600, VerifyPassword]" by (simp add: st_begun_def)
  from begin_first_call_skips_scan [OF n u b, of 1] e n u d c show ?thesis by simp
qed

section \<open>Cache consistency\<close>

lemma occupied_ids_enrolled1: "occupied_ids st_enrolled1 = [1]"
  by (simp add: occupied_ids_def isSlotOccupied_def slot_read_def st_enrolled1_def upt_rec
      nth_list_update)

lemma occupied_ids_deleted2: "occupied_ids st_deleted2 = [1]"
  by (simp add: occupied_ids_def isSlotOccupied_def slot_read_def st_deleted2_def upt_rec
      nth_list_update)

text \<open>
  The memory manager's \<^verbatim>\<open>updateSlot\<close> on the same map: marking the empty slot 2 empty
  leaves its count at 1.
\<close>

lemma updateSlot_empty_slot_keeps_count:
  "updateSlot \<lparr>mm_capacity = 162, mm_enrolledCount = 1,
               slotMap = Some ((replicate 162 False)[0 := True])\<rparr> 2 False =
     (True, \<lparr>mm_capacity = 162, mm_enrolledCount = 1,
             slotMap = Some ((replicate 162 False)[0 := True, 1 := False])\<rparr>)"
  by (simp add: updateSlot_def mm_validateID_def Let_def)

text \<open>
  C1 fails on the code. With a device that answers OK to every command, \<^verbatim>\<open>begin()\<close>,
  \<^verbatim>\<open>enroll(1)\<close> and \<^verbatim>\<open>deleteTemplate(2)\<close> each report success. After the enroll the count
  is 1 and slot 1 is the one occupied slot. The delete of the empty slot 2 decrements the
  count all the same: the statistics report 0 occupied slots while \<^verbatim>\<open>isSlotOccupied\<close>
  is still true for slot 1.
\<close>

theorem delete_empty_slot_breaks_count:
  "begin_uf ok_device (new_UniversalFingerprint UF_SENSOR_AS608) 0 57600 = (True, st_begun) \<and>
   enroll ok_device 1 st_begun 1 2 = (UF_OK, st_enrolled1) \<and>
   unat (enrolledCount st_enrolled1) = length (occupied_ids st_enrolled1) \<and>
   deleteTemplate ok_device st_enrolled1 2 = (UF_OK, st_deleted2) \<and>
   occupiedSlots (fst (snd (getDatabaseStats ok_device st_deleted2))) = 0 \<and>
   enrolledCount st_deleted2 = 0 \<and>
   isSlotOccupied st_deleted2 1 \<and>
   occupied_ids st_deleted2 = [1] \<and>
   unat (enrolledCount st_deleted2) \<noteq> length (occupied_ids st_deleted2)"
proof -
  have a: "unat (enrolledCount st_enrolled1) = length (occupied_ids st_enrolled1)"
    by (simp add: occupied_ids_enrolled1) (simp add: st_enrolled1_def)
  have b: "enrolledCount st_deleted2 = 0" by (simp add: st_deleted2_def)
  from a b begin_AS608 enroll_slot1 delete_slot2 stats_deleted2 occupied_deleted2_slot1
    occupied_ids_deleted2
  show ?thesis by simp
qed

theorem delete_empty_slot_breaks_count_witness:
  "initialized st_enrolled1 \<and> validateID st_enrolled1 2 \<and>
   databaseScanned st_deleted2 \<and> 1 \<le> capacity st_deleted2 \<and>
   fst (deleteTemplate ok_device st_enrolled1 2) = UF_OK \<and>
   enrolledCount (snd (deleteTemplate ok_device st_enrolled1 2)) = 0 \<and>
   isSlotOccupied (snd (deleteTemplate ok_device st_enrolled1 2)) 1 \<and>
   length (occupied_ids (snd (deleteTemplate ok_device st_enrolled1 2))) = 1"
proof -
  have a: "initialized st_enrolled1" "validateID st_enrolled1 2"
    by (simp_all add: st_enrolled1_def validateID_def)
  have b: "databaseScanned st_deleted2" "1 \<le> capacity st_deleted2"
    by (simp_all add: st_deleted2_def)
  from delete_empty_slot_breaks_count a b show ?thesis by simp
qed

end
